theory Spec2Isabelle
  imports Main "HOL-Library.Sublist"
begin

text \<open>
  A model of \<^verbatim>\<open>script.js\<close>, the cryptocurrency tracker: a page that fetches a list of
  coins, renders them as cards, and keeps a selection of up to five coins and two display
  preferences in \<^verbatim>\<open>localStorage\<close>. The functions of the script are embedded as functions
  on an explicit state; the properties of its specification are then proved of them, or
  refuted at a concrete input.
\<close>

section \<open>JavaScript values held by the tracker\<close>

text \<open>
  The two module-level variables of \<^verbatim>\<open>script.js\<close>, \<^verbatim>\<open>selectedCoins\<close> and
  \<^verbatim>\<open>userPrefs\<close>, hold whatever \<^verbatim>\<open>JSON.parse\<close> returned for the stored text, or the
  literal default. Their values are therefore JSON values. Strings are lists of code units;
  only the code units \<open>0x00\<close> to \<open>0xFF\<close> are represented. JSON numbers are floating point
  and are not represented: wherever the script would meet one, the model answers
  \<open>Unmodelled\<close> and says nothing further.
\<close>

datatype jsval =
    JNull
  | JBool bool
  | JStr string
  | JArr "jsval list"
  | JObj "(string \<times> jsval) list"

text \<open>
  \<open>SyntaxError\<close> and \<open>TypeError\<close> are the exceptions of the language.
  \<open>Unmodelled\<close> is not an exception: it marks an input on which this model is silent.
\<close>

datatype failure = SyntaxError | TypeError | Unmodelled

subsection \<open>JSON.stringify\<close>

definition hex_digit :: "nat \<Rightarrow> char" where
  "hex_digit n = ''0123456789abcdef'' ! (n mod 16)"

text \<open>The escapes of \<^verbatim>\<open>QuoteJSONString\<close>: the two-character escapes, and
  \<^verbatim>\<open>\u00XX\<close> in lower-case hexadecimal for the other control characters.\<close>

definition QuoteJSONChar :: "char \<Rightarrow> string" where
  "QuoteJSONChar c =
     (if c = CHR 0x08 then [CHR 0x5C, CHR ''b'']
      else if c = CHR 0x09 then [CHR 0x5C, CHR ''t'']
      else if c = CHR 0x0A then [CHR 0x5C, CHR ''n'']
      else if c = CHR 0x0C then [CHR 0x5C, CHR ''f'']
      else if c = CHR 0x0D then [CHR 0x5C, CHR ''r'']
      else if c = CHR 0x22 then [CHR 0x5C, CHR 0x22]
      else if c = CHR 0x5C then [CHR 0x5C, CHR 0x5C]
      else if (of_char c :: nat) < 0x20
        then [CHR 0x5C, CHR ''u'', CHR ''0'', CHR ''0'',
              hex_digit (of_char c div 16), hex_digit (of_char c)]
      else [c])"

definition QuoteJSONString :: "string \<Rightarrow> string" where
  "QuoteJSONString s = [CHR 0x22] @ concat (map QuoteJSONChar s) @ [CHR 0x22]"

fun commas :: "string list \<Rightarrow> string" where
  "commas [] = []"
| "commas [x] = x"
| "commas (x # y # ys) = x @ '','' @ commas (y # ys)"

text \<open>\<^verbatim>\<open>JSON.stringify(value)\<close> with no indent argument: no white space is written.\<close>

fun JSON_stringify :: "jsval \<Rightarrow> string" where
  "JSON_stringify JNull = ''null''"
| "JSON_stringify (JBool b) = (if b then ''true'' else ''false'')"
| "JSON_stringify (JStr s) = QuoteJSONString s"
| "JSON_stringify (JArr xs) = ''['' @ commas (map JSON_stringify xs) @ '']''"
| "JSON_stringify (JObj kvs) =
     ''{'' @ commas (map (\<lambda>(k, v). QuoteJSONString k @ '':'' @ JSON_stringify v) kvs) @ ''}''"

subsection \<open>JSON.parse\<close>

datatype token = TLBrace | TRBrace | TLBrack | TRBrack | TComma | TColon
  | TLit jsval | TStr string

datatype mode = Outside | InString string

definition is_ws :: "char \<Rightarrow> bool" where
  "is_ws c = (c = CHR 0x09 \<or> c = CHR 0x0A \<or> c = CHR 0x0D \<or> c = CHR 0x20)"

definition is_digit :: "char \<Rightarrow> bool" where
  "is_digit c = (48 \<le> (of_char c :: nat) \<and> (of_char c :: nat) \<le> 57)"

definition unhex :: "char \<Rightarrow> nat option" where
  "unhex c =
     (let n = (of_char c :: nat) in
      if 48 \<le> n \<and> n \<le> 57 then Some (n - 48)
      else if 65 \<le> n \<and> n \<le> 70 then Some (n - 55)
      else if 97 \<le> n \<and> n \<le> 102 then Some (n - 87)
      else None)"

fun unhex4 :: "string \<Rightarrow> nat option" where
  "unhex4 [a, b, c, d] =
     (case (unhex a, unhex b, unhex c, unhex d) of
        (Some x, Some y, Some z, Some w) \<Rightarrow> Some (((x * 16 + y) * 16 + z) * 16 + w)
      | _ \<Rightarrow> None)"
| "unhex4 _ = None"

definition unescape :: "char \<Rightarrow> char option" where
  "unescape e =
     (if e = CHR 0x22 then Some (CHR 0x22)
      else if e = CHR 0x5C then Some (CHR 0x5C)
      else if e = CHR ''/'' then Some (CHR ''/'')
      else if e = CHR ''b'' then Some (CHR 0x08)
      else if e = CHR ''f'' then Some (CHR 0x0C)
      else if e = CHR ''n'' then Some (CHR 0x0A)
      else if e = CHR ''r'' then Some (CHR 0x0D)
      else if e = CHR ''t'' then Some (CHR 0x09)
      else None)"

definition emit :: "token \<Rightarrow> failure + token list \<Rightarrow> failure + token list" where
  "emit t r = (case r of Inl e \<Rightarrow> Inl e | Inr ts \<Rightarrow> Inr (t # ts))"

text \<open>
  The lexical grammar of JSON text. White space is tab, line feed, carriage return and
  space. A string may not hold a raw control character; an escape is one of the eight
  single-character escapes or \<^verbatim>\<open>\u\<close> with four hexadecimal digits. A number token
  (it starts with a minus sign or a digit) and an escape above \<open>0xFF\<close> leave the model.
\<close>

function tokenize :: "mode \<Rightarrow> string \<Rightarrow> failure + token list" where
  "tokenize Outside [] = Inr []"
| "tokenize Outside (c # cs) =
     (if is_ws c then tokenize Outside cs
      else if c = CHR ''{'' then emit TLBrace (tokenize Outside cs)
      else if c = CHR ''}'' then emit TRBrace (tokenize Outside cs)
      else if c = CHR ''['' then emit TLBrack (tokenize Outside cs)
      else if c = CHR '']'' then emit TRBrack (tokenize Outside cs)
      else if c = CHR '','' then emit TComma (tokenize Outside cs)
      else if c = CHR '':'' then emit TColon (tokenize Outside cs)
      else if c = CHR 0x22 then tokenize (InString []) cs
      else if take 4 (c # cs) = ''null''
        then emit (TLit JNull) (tokenize Outside (drop 3 cs))
      else if take 4 (c # cs) = ''true''
        then emit (TLit (JBool True)) (tokenize Outside (drop 3 cs))
      else if take 5 (c # cs) = ''false''
        then emit (TLit (JBool False)) (tokenize Outside (drop 4 cs))
      else if c = CHR ''-'' \<or> is_digit c then Inl Unmodelled
      else Inl SyntaxError)"
| "tokenize (InString acc) [] = Inl SyntaxError"
| "tokenize (InString acc) (c # cs) =
     (if c = CHR 0x22 then emit (TStr (rev acc)) (tokenize Outside cs)
      else if c = CHR 0x5C then
        (case cs of
           [] \<Rightarrow> Inl SyntaxError
         | e # es \<Rightarrow>
             if e = CHR ''u'' then
               (case unhex4 (take 4 es) of
                  None \<Rightarrow> Inl SyntaxError
                | Some n \<Rightarrow>
                    if n < 256 then tokenize (InString (char_of n # acc)) (drop 4 es)
                    else Inl Unmodelled)
             else
               (case unescape e of
                  None \<Rightarrow> Inl SyntaxError
                | Some x \<Rightarrow> tokenize (InString (x # acc)) es))
      else if (of_char c :: nat) < 0x20 then Inl SyntaxError
      else tokenize (InString (c # acc)) cs)"
  by pat_completeness auto
termination
  by (relation "measure (\<lambda>(m, cs). length cs)") auto

text \<open>
  Property order of an ordinary object: array-index keys (canonical decimal strings up to
  \<open>2^32 - 2\<close>) in ascending numeric order, then the other keys in creation order.
  Defining a key that exists overwrites its value in place.
\<close>

definition nat_of_digits :: "string \<Rightarrow> nat" where
  "nat_of_digits ds = foldl (\<lambda>n c. 10 * n + ((of_char c :: nat) - 48)) 0 ds"

definition is_array_index :: "string \<Rightarrow> bool" where
  "is_array_index k =
     (k \<noteq> [] \<and> list_all is_digit k \<and> (hd k \<noteq> CHR ''0'' \<or> length k = 1)
      \<and> nat_of_digits k \<le> 4294967294)"

definition put_prop :: "string \<Rightarrow> jsval \<Rightarrow> (string \<times> jsval) list \<Rightarrow> (string \<times> jsval) list" where
  "put_prop k v kvs =
     (if k \<in> fst ` set kvs
        then map (\<lambda>(k', v'). if k' = k then (k', v) else (k', v')) kvs
      else if is_array_index k
        then takeWhile (\<lambda>(k', _). is_array_index k' \<and> nat_of_digits k' < nat_of_digits k) kvs
             @ (k, v)
             # dropWhile (\<lambda>(k', _). is_array_index k' \<and> nat_of_digits k' < nat_of_digits k) kvs
      else kvs @ [(k, v)])"

text \<open>
  The syntactic grammar, as a machine over the tokens with a stack of open containers:
  an array frame holds its elements so far (latest first), an object frame its properties
  so far, and a key frame the key whose value is being read.
\<close>

datatype frame = FArr "jsval list" | FObj "(string \<times> jsval) list" | FKey string

datatype pstate = PValue | PFirstElem | PFirstKey | PKey | PColon string | PAfter
  | PDone jsval

fun deliver :: "jsval \<Rightarrow> frame list \<Rightarrow> (pstate \<times> frame list) option" where
  "deliver v [] = Some (PDone v, [])"
| "deliver v (FArr es # stk) = Some (PAfter, FArr (v # es) # stk)"
| "deliver v (FKey k # FObj kvs # stk) = Some (PAfter, FObj (put_prop k v kvs) # stk)"
| "deliver v _ = None"

fun begin_value :: "token \<Rightarrow> frame list \<Rightarrow> (pstate \<times> frame list) option" where
  "begin_value (TLit v) stk = deliver v stk"
| "begin_value (TStr s) stk = deliver (JStr s) stk"
| "begin_value TLBrack stk = Some (PFirstElem, FArr [] # stk)"
| "begin_value TLBrace stk = Some (PFirstKey, FObj [] # stk)"
| "begin_value _ stk = None"

fun close_array :: "frame list \<Rightarrow> (pstate \<times> frame list) option" where
  "close_array (FArr es # stk) = deliver (JArr (rev es)) stk"
| "close_array _ = None"

fun close_object :: "frame list \<Rightarrow> (pstate \<times> frame list) option" where
  "close_object (FObj kvs # stk) = deliver (JObj kvs) stk"
| "close_object _ = None"

fun after_comma :: "frame list \<Rightarrow> (pstate \<times> frame list) option" where
  "after_comma (FArr es # stk) = Some (PValue, FArr es # stk)"
| "after_comma (FObj kvs # stk) = Some (PKey, FObj kvs # stk)"
| "after_comma _ = None"

definition step_tok :: "pstate \<Rightarrow> frame list \<Rightarrow> token \<Rightarrow> (pstate \<times> frame list) option" where
  "step_tok st stk t =
     (case st of
        PValue \<Rightarrow> begin_value t stk
      | PFirstElem \<Rightarrow> (if t = TRBrack then close_array stk else begin_value t stk)
      | PFirstKey \<Rightarrow>
          (case t of
             TRBrace \<Rightarrow> close_object stk
           | TStr k \<Rightarrow> Some (PColon k, stk)
           | _ \<Rightarrow> None)
      | PKey \<Rightarrow> (case t of TStr k \<Rightarrow> Some (PColon k, stk) | _ \<Rightarrow> None)
      | PColon k \<Rightarrow> (case t of TColon \<Rightarrow> Some (PValue, FKey k # stk) | _ \<Rightarrow> None)
      | PAfter \<Rightarrow>
          (case t of
             TComma \<Rightarrow> after_comma stk
           | TRBrack \<Rightarrow> close_array stk
           | TRBrace \<Rightarrow> close_object stk
           | _ \<Rightarrow> None)
      | PDone v \<Rightarrow> None)"

fun parse_toks :: "pstate \<Rightarrow> frame list \<Rightarrow> token list \<Rightarrow> failure + jsval" where
  "parse_toks st stk [] = (case st of PDone v \<Rightarrow> Inr v | _ \<Rightarrow> Inl SyntaxError)"
| "parse_toks st stk (t # ts) =
     (case step_tok st stk t of
        None \<Rightarrow> Inl SyntaxError
      | Some (st', stk') \<Rightarrow> parse_toks st' stk' ts)"

definition JSON_parse_text :: "string \<Rightarrow> failure + jsval" where
  "JSON_parse_text text =
     (case tokenize Outside text of
        Inl e \<Rightarrow> Inl e
      | Inr ts \<Rightarrow> parse_toks PValue [] ts)"

text \<open>\<^verbatim>\<open>JSON.parse(localStorage.getItem(key))\<close>: \<^verbatim>\<open>getItem\<close> answers \<^verbatim>\<open>null\<close> for
  a key that is not stored, and \<^verbatim>\<open>JSON.parse\<close> converts its argument to a string first,
  so an absent key is parsed as the text \<^verbatim>\<open>null\<close>.\<close>

definition JSON_parse :: "string option \<Rightarrow> failure + jsval" where
  "JSON_parse item =
     (case item of None \<Rightarrow> JSON_parse_text ''null'' | Some text \<Rightarrow> JSON_parse_text text)"

section \<open>The page: coins, platform functions, state\<close>

text \<open>
  A coin of the market response, with the fields the script reads. The number type \<open>'n\<close>
  stays abstract: the script only formats numbers, through the platform's number-to-string
  conversion, \<^verbatim>\<open>toFixed(2)\<close> and \<^verbatim>\<open>toLocaleString()\<close>, which are parameters here, as is
  \<^verbatim>\<open>toUpperCase()\<close>. The 24h change may be \<^verbatim>\<open>null\<close> in the response.
\<close>

record 'n coin =
  coin_id :: string
  name :: string
  symbol :: string
  current_price :: 'n
  price_change_percentage_24h :: "'n option"
  market_cap :: 'n

record 'n platform =
  numberToString :: "'n \<Rightarrow> string"
  toFixed2 :: "'n \<Rightarrow> string"
  toLocaleString :: "'n \<Rightarrow> string"
  toUpperCase :: "string \<Rightarrow> string"

text \<open>A \<^verbatim>\<open>div\<close> the renderer builds: its class, the markup assigned to it, and the
  identifier its click handler toggles (the cards of the selected list have no handler).\<close>

record card =
  className :: string
  innerHTML :: string
  onclick :: "string option"

text \<open>
  The state: the two module-level variables, the persisted storage, and what the script
  has done to its surroundings: the notices shown with \<^verbatim>\<open>alert\<close>, the URLs passed to
  \<^verbatim>\<open>fetch\<close>, the children of the two containers, and the compare button's
  \<^verbatim>\<open>disabled\<close> flag.
\<close>

record state =
  selectedCoins :: jsval
  userPrefs :: jsval
  localStorage :: "string \<rightharpoonup> string"
  alerts :: "string list"
  requests :: "string list"
  cryptoContainer :: "card list"
  selectedContainer :: "card list"
  compareBtn_disabled :: bool

text \<open>
  A function of the script completes normally, or abruptly with the state as it was when
  the exception was thrown: an uncaught exception ends the running handler only, and the
  page goes on from that state.
\<close>

datatype completion = Normal state | Abrupt failure state

fun state_of :: "completion \<Rightarrow> state" where
  "state_of (Normal s) = s"
| "state_of (Abrupt e s) = s"

subsection \<open>Conversions and property access\<close>

text \<open>\<open>None\<close> stands for \<^verbatim>\<open>undefined\<close>.\<close>

fun ToBoolean :: "jsval option \<Rightarrow> bool" where
  "ToBoolean None = False"
| "ToBoolean (Some JNull) = False"
| "ToBoolean (Some (JBool b)) = b"
| "ToBoolean (Some (JStr s)) = (s \<noteq> [])"
| "ToBoolean (Some (JArr xs)) = True"
| "ToBoolean (Some (JObj kvs)) = True"

text \<open>The string a template literal substitutes. Arrays and objects are left out.\<close>

fun ToString :: "jsval option \<Rightarrow> failure + string" where
  "ToString None = Inr ''undefined''"
| "ToString (Some JNull) = Inr ''null''"
| "ToString (Some (JBool b)) = Inr (if b then ''true'' else ''false'')"
| "ToString (Some (JStr s)) = Inr s"
| "ToString (Some (JArr xs)) = Inl Unmodelled"
| "ToString (Some (JObj kvs)) = Inl Unmodelled"

text \<open>
  Reading the property \<open>k\<close>, for the two names the script reads (\<^verbatim>\<open>show24h\<close> and
  \<^verbatim>\<open>sortOrder\<close>, which no prototype defines): an object answers its own property, any
  other value but \<^verbatim>\<open>null\<close> answers \<^verbatim>\<open>undefined\<close>.
\<close>

fun Get :: "jsval \<Rightarrow> string \<Rightarrow> failure + jsval option" where
  "Get JNull k = Inl TypeError"
| "Get (JObj kvs) k = Inr (map_of kvs k)"
| "Get (JBool b) k = Inr None"
| "Get (JStr s) k = Inr None"
| "Get (JArr xs) k = Inr None"

text \<open>
  Assigning the property \<open>k\<close> (the script is not in strict mode): an object takes it, a
  boolean or a string ignores it, \<^verbatim>\<open>null\<close> throws. An array would keep it beside its
  elements, which \<open>JArr\<close> cannot hold.
\<close>

fun Put :: "jsval \<Rightarrow> string \<Rightarrow> jsval \<Rightarrow> failure + jsval" where
  "Put JNull k v = Inl TypeError"
| "Put (JObj kvs) k v = Inr (JObj (put_prop k v kvs))"
| "Put (JBool b) k v = Inr (JBool b)"
| "Put (JStr s) k v = Inr (JStr s)"
| "Put (JArr xs) k v = Inl Unmodelled"

subsection \<open>Loading the state (lines 13 to 20)\<close>

definition API_ENDPOINT :: string where
  "API_ENDPOINT = ''https://api.coingecko.com/api/v3/coins/markets''"

definition default_prefs :: jsval where
  "default_prefs = JObj [(''show24h'', JBool False), (''sortOrder'', JStr ''market_cap_desc'')]"

text \<open>\<^verbatim>\<open>JSON.parse(localStorage.getItem('selectedCoins')) || []\<close>\<close>

definition load_selectedCoins :: "(string \<rightharpoonup> string) \<Rightarrow> failure + jsval" where
  "load_selectedCoins st =
     (case JSON_parse (st ''selectedCoins'') of
        Inl e \<Rightarrow> Inl e
      | Inr v \<Rightarrow> Inr (if ToBoolean (Some v) then v else JArr []))"

text \<open>\<^verbatim>\<open>JSON.parse(localStorage.getItem('userPrefs')) || { show24h: false, sortOrder: 'market_cap_desc' }\<close>\<close>

definition load_userPrefs :: "(string \<rightharpoonup> string) \<Rightarrow> failure + jsval" where
  "load_userPrefs st =
     (case JSON_parse (st ''userPrefs'') of
        Inl e \<Rightarrow> Inl e
      | Inr v \<Rightarrow> Inr (if ToBoolean (Some v) then v else default_prefs))"

subsection \<open>updateLocal and loadData\<close>

text \<open>\<^verbatim>\<open>updateLocal\<close> writes both keys. \<^verbatim>\<open>setItem\<close> is taken to succeed: a full or
  disabled storage is not modelled.\<close>

definition updateLocal :: "state \<Rightarrow> state" where
  "updateLocal s =
     s\<lparr>localStorage := (localStorage s)
          (''selectedCoins'' \<mapsto> JSON_stringify (selectedCoins s),
           ''userPrefs'' \<mapsto> JSON_stringify (userPrefs s))\<rparr>"

definition fetch_url :: "string \<Rightarrow> string" where
  "fetch_url order = API_ENDPOINT @ ''?vs_currency=usd&order='' @ order @ ''&per_page=50&page=1''"

text \<open>
  \<^verbatim>\<open>loadData\<close> up to its first \<^verbatim>\<open>await\<close>: the URL is built and passed to \<^verbatim>\<open>fetch\<close>.
  This is all that runs inside the caller's turn. \<^verbatim>\<open>loadData\<close> is an \<^verbatim>\<open>async\<close>
  function, so an abrupt completion here is a rejected promise that nobody handles.
\<close>

definition loadData_fetch :: "state \<Rightarrow> completion" where
  "loadData_fetch s =
     (case Get (userPrefs s) ''sortOrder'' of
        Inl e \<Rightarrow> Abrupt e s
      | Inr v \<Rightarrow>
          (case ToString v of
             Inl e \<Rightarrow> Abrupt e s
           | Inr order \<Rightarrow> Normal (s\<lparr>requests := requests s @ [fetch_url order]\<rparr>)))"

subsection \<open>Rendering\<close>

definition nl :: string where
  "nl = [CHR 0x0A]"

text \<open>The conditional line of both card templates:
  \<^verbatim>\<open>userPrefs.show24h ? `<p>24h Change: ${coin.price_change_percentage_24h.toFixed(2)}%</p>` : ''\<close>.
  Calling \<^verbatim>\<open>toFixed\<close> on \<^verbatim>\<open>null\<close> throws.\<close>

definition change_line :: "'n platform \<Rightarrow> jsval \<Rightarrow> 'n coin \<Rightarrow> failure + string" where
  "change_line P prefs c =
     (case Get prefs ''show24h'' of
        Inl e \<Rightarrow> Inl e
      | Inr v \<Rightarrow>
          if ToBoolean v then
            (case price_change_percentage_24h c of
               None \<Rightarrow> Inl TypeError
             | Some x \<Rightarrow> Inr (''<p>24h Change: '' @ toFixed2 P x @ ''%</p>''))
          else Inr [])"

definition crypto_card_html :: "'n platform \<Rightarrow> jsval \<Rightarrow> 'n coin \<Rightarrow> failure + string" where
  "crypto_card_html P prefs c =
     (case change_line P prefs c of
        Inl e \<Rightarrow> Inl e
      | Inr line \<Rightarrow>
          Inr (nl @ ''      <h3>'' @ name c @ '' ('' @ toUpperCase P (symbol c) @ '')</h3>''
               @ nl @ ''      <p>Price: $'' @ numberToString P (current_price c) @ ''</p>''
               @ nl @ ''      '' @ line
               @ nl @ ''      <p>Market Cap: $'' @ toLocaleString P (market_cap c) @ ''</p>''
               @ nl @ ''    ''))"

definition selected_card_html :: "'n platform \<Rightarrow> jsval \<Rightarrow> 'n coin \<Rightarrow> failure + string" where
  "selected_card_html P prefs c =
     (case change_line P prefs c of
        Inl e \<Rightarrow> Inl e
      | Inr line \<Rightarrow>
          Inr (nl @ ''      <strong>'' @ name c @ ''</strong>''
               @ nl @ ''      <p>Price: $'' @ numberToString P (current_price c) @ ''</p>''
               @ nl @ ''      '' @ line
               @ nl @ ''      <button onclick='' @ [CHR 0x22] @ ''removeCoin('' @ [CHR 0x27]
                    @ coin_id c @ [CHR 0x27] @ '')'' @ [CHR 0x22] @ ''>Remove</button>''
               @ nl @ ''    ''))"

definition row_class :: "nat \<Rightarrow> string" where
  "row_class i =
     ''crypto-card row-''
     @ (if i mod 3 = 0 then ''0'' else if i mod 3 = 1 then ''1'' else ''2'')"

text \<open>The \<^verbatim>\<open>forEach\<close> of \<^verbatim>\<open>renderCryptoList\<close>, from index \<open>i\<close> on. A card whose template
  throws is not appended, and the cards before it stay.\<close>

fun crypto_cards :: "'n platform \<Rightarrow> nat \<Rightarrow> 'n coin list \<Rightarrow> state \<Rightarrow> completion" where
  "crypto_cards P i [] s = Normal s"
| "crypto_cards P i (c # cs) s =
     (case crypto_card_html P (userPrefs s) c of
        Inl e \<Rightarrow> Abrupt e s
      | Inr html \<Rightarrow>
          crypto_cards P (Suc i) cs
            (s\<lparr>cryptoContainer := cryptoContainer s
                 @ [\<lparr>className = row_class i, innerHTML = html, onclick = Some (coin_id c)\<rparr>]\<rparr>))"

definition renderCryptoList :: "'n platform \<Rightarrow> 'n coin list \<Rightarrow> state \<Rightarrow> completion" where
  "renderCryptoList P coins s = crypto_cards P 0 coins (s\<lparr>cryptoContainer := []\<rparr>)"

text \<open>
  \<^verbatim>\<open>selectedCoins.includes(id)\<close> for a string \<open>id\<close>: an array answers whether the string
  is an element, a string whether it is a substring; no other value has the method.
\<close>

fun includes_id :: "jsval \<Rightarrow> string \<Rightarrow> failure + bool" where
  "includes_id (JArr xs) i = Inr (JStr i \<in> set xs)"
| "includes_id (JStr t) i = Inr (sublist i t)"
| "includes_id JNull i = Inl TypeError"
| "includes_id (JBool b) i = Inl TypeError"
| "includes_id (JObj kvs) i = Inl TypeError"

text \<open>\<^verbatim>\<open>coins.filter(c => selectedCoins.includes(c.id))\<close>\<close>

fun selectedData :: "jsval \<Rightarrow> 'n coin list \<Rightarrow> failure + 'n coin list" where
  "selectedData sel [] = Inr []"
| "selectedData sel (c # cs) =
     (case includes_id sel (coin_id c) of
        Inl e \<Rightarrow> Inl e
      | Inr keep \<Rightarrow>
          (case selectedData sel cs of
             Inl e \<Rightarrow> Inl e
           | Inr rest \<Rightarrow> Inr (if keep then c # rest else rest)))"

fun selected_cards :: "'n platform \<Rightarrow> 'n coin list \<Rightarrow> state \<Rightarrow> completion" where
  "selected_cards P [] s = Normal s"
| "selected_cards P (c # cs) s =
     (case selected_card_html P (userPrefs s) c of
        Inl e \<Rightarrow> Abrupt e s
      | Inr html \<Rightarrow>
          selected_cards P cs
            (s\<lparr>selectedContainer := selectedContainer s
                 @ [\<lparr>className = ''selected-card'', innerHTML = html, onclick = None\<rparr>]\<rparr>))"

text \<open>\<^verbatim>\<open>selectedCoins.length !== 5\<close>. A boolean has no length, and an object's own
  \<^verbatim>\<open>length\<close>, if any, is no number here: both differ from 5.\<close>

fun length_differs_from_5 :: "jsval \<Rightarrow> failure + bool" where
  "length_differs_from_5 (JArr xs) = Inr (length xs \<noteq> 5)"
| "length_differs_from_5 (JStr t) = Inr (length t \<noteq> 5)"
| "length_differs_from_5 JNull = Inl TypeError"
| "length_differs_from_5 (JBool b) = Inr True"
| "length_differs_from_5 (JObj kvs) = Inr True"

definition renderSelected :: "'n platform \<Rightarrow> 'n coin list \<Rightarrow> state \<Rightarrow> completion" where
  "renderSelected P coins s =
     (let s1 = s\<lparr>selectedContainer := []\<rparr> in
      case selectedData (selectedCoins s1) coins of
        Inl e \<Rightarrow> Abrupt e s1
      | Inr chosen \<Rightarrow>
          (case selected_cards P chosen s1 of
             Abrupt e s2 \<Rightarrow> Abrupt e s2
           | Normal s2 \<Rightarrow>
               (case length_differs_from_5 (selectedCoins s2) of
                  Inl e \<Rightarrow> Abrupt e s2
                | Inr d \<Rightarrow> Normal (s2\<lparr>compareBtn_disabled := d\<rparr>))))"

text \<open>\<^verbatim>\<open>loadData\<close> after the response has arrived and its JSON has been read as \<open>coins\<close>.\<close>

definition loadData_render :: "'n platform \<Rightarrow> 'n coin list \<Rightarrow> state \<Rightarrow> completion" where
  "loadData_render P coins s =
     (case renderCryptoList P coins s of
        Abrupt e s1 \<Rightarrow> Abrupt e s1
      | Normal s1 \<Rightarrow> renderSelected P coins s1)"

text \<open>A whole cycle of \<^verbatim>\<open>loadData\<close>, when nothing else happens between the request and
  its response.\<close>

definition loadData :: "'n platform \<Rightarrow> 'n coin list \<Rightarrow> state \<Rightarrow> completion" where
  "loadData P coins s =
     (case loadData_fetch s of
        Abrupt e s1 \<Rightarrow> Abrupt e s1
      | Normal s1 \<Rightarrow> loadData_render P coins s1)"

subsection \<open>The operations on the selection and the preferences\<close>

definition capacity_notice :: string where
  "capacity_notice = ''You can only compare up to 5 coins.''"

text \<open>
  \<^verbatim>\<open>toggleCoin(id)\<close>. On an array the three branches are those of the source. A string
  has \<^verbatim>\<open>includes\<close> and \<^verbatim>\<open>length\<close> but neither \<^verbatim>\<open>filter\<close> nor \<^verbatim>\<open>push\<close>, so only the
  third branch completes on it; any other value fails at \<^verbatim>\<open>includes\<close>.
\<close>

definition toggleCoin :: "string \<Rightarrow> state \<Rightarrow> completion" where
  "toggleCoin i s =
     (case selectedCoins s of
        JArr xs \<Rightarrow>
          loadData_fetch (updateLocal
            (if JStr i \<in> set xs then s\<lparr>selectedCoins := JArr (filter (\<lambda>c. c \<noteq> JStr i) xs)\<rparr>
             else if length xs < 5 then s\<lparr>selectedCoins := JArr (xs @ [JStr i])\<rparr>
             else s\<lparr>alerts := alerts s @ [capacity_notice]\<rparr>))
      | JStr t \<Rightarrow>
          if sublist i t then Abrupt TypeError s
          else if length t < 5 then Abrupt TypeError s
          else loadData_fetch (updateLocal (s\<lparr>alerts := alerts s @ [capacity_notice]\<rparr>))
      | JNull \<Rightarrow> Abrupt TypeError s
      | JBool b \<Rightarrow> Abrupt TypeError s
      | JObj kvs \<Rightarrow> Abrupt TypeError s)"

text \<open>\<^verbatim>\<open>removeCoin(id)\<close>: only an array has \<^verbatim>\<open>filter\<close>.\<close>

definition removeCoin :: "string \<Rightarrow> state \<Rightarrow> completion" where
  "removeCoin i s =
     (case selectedCoins s of
        JArr xs \<Rightarrow>
          loadData_fetch (updateLocal (s\<lparr>selectedCoins := JArr (filter (\<lambda>c. c \<noteq> JStr i) xs)\<rparr>))
      | JStr t \<Rightarrow> Abrupt TypeError s
      | JNull \<Rightarrow> Abrupt TypeError s
      | JBool b \<Rightarrow> Abrupt TypeError s
      | JObj kvs \<Rightarrow> Abrupt TypeError s)"

text \<open>The two \<^verbatim>\<open>change\<close> listeners. The argument is the value the input has when the
  event fires (\<^verbatim>\<open>show24hCheckbox.checked\<close>, \<^verbatim>\<open>sortDropdown.value\<close>).\<close>

definition show24h_changed :: "bool \<Rightarrow> state \<Rightarrow> completion" where
  "show24h_changed checked s =
     (case Put (userPrefs s) ''show24h'' (JBool checked) of
        Inl e \<Rightarrow> Abrupt e s
      | Inr p \<Rightarrow> loadData_fetch (updateLocal (s\<lparr>userPrefs := p\<rparr>)))"

definition sort_changed :: "string \<Rightarrow> state \<Rightarrow> completion" where
  "sort_changed v s =
     (case Put (userPrefs s) ''sortOrder'' (JStr v) of
        Inl e \<Rightarrow> Abrupt e s
      | Inr p \<Rightarrow> loadData_fetch (updateLocal (s\<lparr>userPrefs := p\<rparr>)))"

subsection \<open>The script as a whole\<close>

text \<open>
  Running the script once: the two variables are loaded, the listeners are registered, and
  \<^verbatim>\<open>loadData()\<close> issues the first request. An exception of \<^verbatim>\<open>JSON.parse\<close> ends the script
  before anything is registered. Lines 23 and 24 write the preferences to the two inputs,
  which the state does not hold. The storage and the compare button's initial flag come
  from the browser.
\<close>

definition startup :: "(string \<rightharpoonup> string) \<Rightarrow> bool \<Rightarrow> failure + state" where
  "startup st disabled0 =
     (case load_selectedCoins st of
        Inl e \<Rightarrow> Inl e
      | Inr sel \<Rightarrow>
          (case load_userPrefs st of
             Inl e \<Rightarrow> Inl e
           | Inr prefs \<Rightarrow>
               (case loadData_fetch
                       \<lparr>selectedCoins = sel, userPrefs = prefs, localStorage = st,
                        alerts = [], requests = [], cryptoContainer = [],
                        selectedContainer = [], compareBtn_disabled = disabled0\<rparr> of
                  Abrupt Unmodelled s \<Rightarrow> Inl Unmodelled
                | r \<Rightarrow> Inr (state_of r))))"

text \<open>
  What happens to the page afterwards: a click on a card, a click on a Remove button, a
  change of either input, a tick of the 60-second timer, and the arrival of a response
  with its coins. Each runs to completion before the next. A response may arrive at any
  time and with any coins. A click on the compare button only shows a notice and is left
  out.
\<close>

datatype 'n event =
    CardClick string
  | RemoveClick string
  | Show24hChange bool
  | SortChange string
  | Timer
  | Response "'n coin list"

fun dispatch :: "'n platform \<Rightarrow> 'n event \<Rightarrow> state \<Rightarrow> completion" where
  "dispatch P (CardClick i) s = toggleCoin i s"
| "dispatch P (RemoveClick i) s = removeCoin i s"
| "dispatch P (Show24hChange b) s = show24h_changed b s"
| "dispatch P (SortChange v) s = sort_changed v s"
| "dispatch P Timer s = loadData_fetch s"
| "dispatch P (Response coins) s = loadData_render P coins s"

text \<open>A run goes on after an exception, from the state the exception left; it stops
  only where the model is silent.\<close>

fun run :: "'n platform \<Rightarrow> 'n event list \<Rightarrow> state \<Rightarrow> completion" where
  "run P [] s = Normal s"
| "run P (e # es) s =
     (case dispatch P e s of
        Abrupt Unmodelled s1 \<Rightarrow> Abrupt Unmodelled s1
      | r \<Rightarrow> run P es (state_of r))"

section \<open>Notions used to state and prove the properties\<close>

text \<open>The tokens of a JSON array of strings, without its brackets.\<close>

fun string_toks :: "string list \<Rightarrow> token list" where
  "string_toks [] = []"
| "string_toks [i] = [TStr i]"
| "string_toks (i # j # js) = TStr i # TComma # string_toks (j # js)"

text \<open>The Selection Set invariant: an array of at most five elements, none twice.\<close>

fun within_capacity :: "jsval \<Rightarrow> bool" where
  "within_capacity (JArr xs) = (length xs \<le> 5 \<and> distinct xs)"
| "within_capacity JNull = False"
| "within_capacity (JBool b) = False"
| "within_capacity (JStr t) = False"
| "within_capacity (JObj kvs) = False"

text \<open>A Preferences value with both fields populated: reading either is not
  \<^verbatim>\<open>undefined\<close>.\<close>

fun has_both_fields :: "jsval \<Rightarrow> bool" where
  "has_both_fields (JObj kvs) =
     (map_of kvs ''show24h'' \<noteq> None \<and> map_of kvs ''sortOrder'' \<noteq> None)"
| "has_both_fields JNull = False"
| "has_both_fields (JBool b) = False"
| "has_both_fields (JStr t) = False"
| "has_both_fields (JArr xs) = False"

text \<open>The events whose handlers change the selection or the preferences (toggle, remove,
  setShow24h, setSortOrder).\<close>

fun mutating :: "'n event \<Rightarrow> bool" where
  "mutating (CardClick i) = True"
| "mutating (RemoveClick i) = True"
| "mutating (Show24hChange b) = True"
| "mutating (SortChange v) = True"
| "mutating Timer = False"
| "mutating (Response coins) = False"

text \<open>Well-typed states: the Selection Set is an array of strings, and the Preferences
  are a record of a boolean \<^verbatim>\<open>show24h\<close> and a string \<^verbatim>\<open>sortOrder\<close>.\<close>

definition well_typed :: "state \<Rightarrow> bool" where
  "well_typed s =
     (\<exists>ids b t. selectedCoins s = JArr (map JStr ids)
        \<and> userPrefs s = JObj [(''show24h'', JBool b), (''sortOrder'', JStr t)])"

text \<open>A completion on which the model is silent.\<close>

fun silent :: "completion \<Rightarrow> bool" where
  "silent (Normal s) = False"
| "silent (Abrupt e s) = (e = Unmodelled)"

subsection \<open>Concrete inputs for the examples\<close>

text \<open>A platform whose numbers are carried as their text and formatted unchanged.\<close>

definition demo_platform :: "string platform" where
  "demo_platform =
     \<lparr>numberToString = (\<lambda>x. x), toFixed2 = (\<lambda>x. x), toLocaleString = (\<lambda>x. x),
      toUpperCase = (\<lambda>x. x)\<rparr>"

text \<open>The state after the script has run on empty storage.\<close>

definition fresh :: state where
  "fresh =
     \<lparr>selectedCoins = JArr [], userPrefs = default_prefs, localStorage = Map.empty,
      alerts = [], requests = [fetch_url ''market_cap_desc''], cryptoContainer = [],
      selectedContainer = [], compareBtn_disabled = True\<rparr>"

text \<open>States that differ from it in the selection only.\<close>

definition two_coins :: state where
  "two_coins = fresh\<lparr>selectedCoins := JArr [JStr ''bitcoin'', JStr ''ethereum'']\<rparr>"

text \<open>The state after five clicks on five different cards of the first state.\<close>

definition five_selected :: state where
  "five_selected =
     state_of (run demo_platform
       [CardClick ''bitcoin'', CardClick ''ethereum'', CardClick ''tether'',
        CardClick ''solana'', CardClick ''cardano''] fresh)"

text \<open>Storage holding text that is not JSON, and storage holding a Preferences record
  with one field only.\<close>

definition unparsable_storage :: "string \<rightharpoonup> string" where
  "unparsable_storage = [''selectedCoins'' \<mapsto> ''bitcoin,ethereum'']"

definition partial_prefs_storage :: "string \<rightharpoonup> string" where
  "partial_prefs_storage =
     [''userPrefs'' \<mapsto> ''{'' @ [CHR 0x22] @ ''show24h'' @ [CHR 0x22] @ '':true}'']"

text \<open>A coin whose 24h change is \<^verbatim>\<open>null\<close>, and one that has it.\<close>

definition bitcoin_without_change :: "string coin" where
  "bitcoin_without_change =
     \<lparr>coin_id = ''bitcoin'', name = ''Bitcoin'', symbol = ''btc'', current_price = ''67000'',
      price_change_percentage_24h = None, market_cap = ''1300000000000''\<rparr>"

definition ethereum_with_change :: "string coin" where
  "ethereum_with_change =
     \<lparr>coin_id = ''ethereum'', name = ''Ethereum'', symbol = ''eth'', current_price = ''3500'',
      price_change_percentage_24h = Some ''1.25'', market_cap = ''420000000000''\<rparr>"

text \<open>Five coins selected and the 24h change switched on.\<close>

definition five_selected_with_change :: state where
  "five_selected_with_change = state_of (show24h_changed True five_selected)"

section \<open>Writing and reading back JSON text\<close>

lemma lt16_cases: "n < (16::nat) \<Longrightarrow> n \<in> {0,1,2,3,4,5,6,7,8,9,10,11,12,13,14,15}"
  by simp arith

lemma unhex_hex_digit: "n < 16 \<Longrightarrow> unhex (hex_digit n) = Some n"
  by (drule lt16_cases) (auto simp: hex_digit_def unhex_def)

lemma unhex_zero: "unhex (CHR ''0'') = Some 0"
  by (simp add: unhex_def)

lemma unhex4_control:
  assumes "n < 32"
  shows "unhex4 [CHR ''0'', CHR ''0'', hex_digit (n div 16), hex_digit n] = Some n"
proof -
  have a: "unhex (hex_digit (n div 16)) = Some (n div 16)"
    using assms by (intro unhex_hex_digit) simp
  have "hex_digit n = hex_digit (n mod 16)"
    by (simp add: hex_digit_def)
  then have b: "unhex (hex_digit n) = Some (n mod 16)"
    by (simp add: unhex_hex_digit)
  show ?thesis
    by (simp add: a b unhex_zero)
qed

lemma tokenize_quoted_char:
  "tokenize (InString acc) (QuoteJSONChar c @ rest) = tokenize (InString (c # acc)) rest"
proof -
  consider "c = CHR 0x08" | "c = CHR 0x09" | "c = CHR 0x0A" | "c = CHR 0x0C" | "c = CHR 0x0D"
    | "c = CHR 0x22" | "c = CHR 0x5C"
    | "c \<notin> {CHR 0x08, CHR 0x09, CHR 0x0A, CHR 0x0C, CHR 0x0D, CHR 0x22, CHR 0x5C}" "(of_char c :: nat) < 0x20"
    | "c \<notin> {CHR 0x08, CHR 0x09, CHR 0x0A, CHR 0x0C, CHR 0x0D, CHR 0x22, CHR 0x5C}" "\<not> (of_char c :: nat) < 0x20"
    by blast
  then show ?thesis
  proof cases
    case 8
    then have q: "QuoteJSONChar c = [CHR 0x5C, CHR ''u'', CHR ''0'', CHR ''0'',
              hex_digit (of_char c div 16), hex_digit (of_char c)]"
      by (simp add: QuoteJSONChar_def)
    show ?thesis
      using 8 by (simp add: q unhex4_control del: unhex4.simps)
  next
    case 9
    then show ?thesis by (simp add: QuoteJSONChar_def)
  qed (simp_all add: QuoteJSONChar_def unescape_def)
qed

lemma tokenize_quoted_chars:
  "tokenize (InString acc) (concat (map QuoteJSONChar s) @ CHR 0x22 # rest)
     = emit (TStr (rev acc @ s)) (tokenize Outside rest)"
proof (induction s arbitrary: acc)
  case Nil
  show ?case by simp
next
  case (Cons c s)
  have "tokenize (InString acc) (concat (map QuoteJSONChar (c # s)) @ CHR 0x22 # rest)
      = tokenize (InString acc) (QuoteJSONChar c @ (concat (map QuoteJSONChar s) @ CHR 0x22 # rest))"
    by simp
  also have "\<dots> = tokenize (InString (c # acc)) (concat (map QuoteJSONChar s) @ CHR 0x22 # rest)"
    by (rule tokenize_quoted_char)
  also have "\<dots> = emit (TStr (rev (c # acc) @ s)) (tokenize Outside rest)"
    by (rule Cons.IH)
  finally show ?case by simp
qed

lemma tokenize_QuoteJSONString:
  "tokenize Outside (QuoteJSONString s @ rest) = emit (TStr s) (tokenize Outside rest)"
  using tokenize_quoted_chars [of "[]" s rest]
  by (simp add: QuoteJSONString_def is_ws_def)

lemma tokenize_comma: "tokenize Outside (CHR '','' # rest) = emit TComma (tokenize Outside rest)"
  by (simp add: is_ws_def)

lemma tokenize_string_list:
  "tokenize Outside rest = Inr ts \<Longrightarrow>
   tokenize Outside (commas (map QuoteJSONString ids) @ rest) = Inr (string_toks ids @ ts)"
proof (induction ids rule: string_toks.induct)
  case 1
  then show ?case by simp
next
  case (2 i)
  then show ?case by (simp add: tokenize_QuoteJSONString emit_def)
next
  case (3 i j js)
  then show ?case
    by (simp add: tokenize_QuoteJSONString tokenize_comma emit_def del: tokenize.simps)
qed

lemma string_toks_Cons:
  "string_toks (i # js) = TStr i # concat (map (\<lambda>j. [TComma, TStr j]) js)"
  by (induction js arbitrary: i) simp_all

lemma parse_string_elems:
  "parse_toks PAfter (FArr es # stk) (concat (map (\<lambda>i. [TComma, TStr i]) ids) @ ts)
     = parse_toks PAfter (FArr (rev (map JStr ids) @ es) # stk) ts"
  by (induction ids arbitrary: es) (simp_all add: step_tok_def)

lemma parse_string_array:
  "parse_toks PValue [] (TLBrack # string_toks ids @ [TRBrack]) = Inr (JArr (map JStr ids))"
proof (cases ids)
  case Nil
  then show ?thesis by (simp add: step_tok_def)
next
  case (Cons i js)
  have "parse_toks PValue [] (TLBrack # string_toks ids @ [TRBrack])
      = parse_toks PAfter [FArr [JStr i]] (concat (map (\<lambda>j. [TComma, TStr j]) js) @ [TRBrack])"
    by (simp add: Cons string_toks_Cons step_tok_def)
  also have "\<dots> = parse_toks PAfter [FArr (rev (map JStr js) @ [JStr i])] [TRBrack]"
    by (rule parse_string_elems)
  also have "\<dots> = Inr (JArr (map JStr ids))"
    by (simp add: Cons step_tok_def rev_map)
  finally show ?thesis .
qed

lemma stringify_string_array:
  "JSON_stringify (JArr (map JStr ids)) = CHR ''['' # commas (map QuoteJSONString ids) @ '']''"
  by (simp add: comp_def)

lemma parse_stringify_string_array:
  "JSON_parse_text (JSON_stringify (JArr (map JStr ids))) = Inr (JArr (map JStr ids))"
proof -
  have "tokenize Outside '']'' = Inr [TRBrack]"
    by (simp add: is_ws_def emit_def)
  then have "tokenize Outside (commas (map QuoteJSONString ids) @ '']'')
      = Inr (string_toks ids @ [TRBrack])"
    by (rule tokenize_string_list)
  then have "tokenize Outside (JSON_stringify (JArr (map JStr ids)))
      = Inr (TLBrack # string_toks ids @ [TRBrack])"
    by (simp add: stringify_string_array is_ws_def emit_def del: JSON_stringify.simps)
  then show ?thesis
    by (simp add: JSON_parse_text_def parse_string_array del: JSON_stringify.simps parse_toks.simps)
qed

lemma not_index_show24h: "\<not> is_array_index ''show24h''"
  by (simp add: is_array_index_def is_digit_def)

lemma not_index_sortOrder: "\<not> is_array_index ''sortOrder''"
  by (simp add: is_array_index_def is_digit_def)

lemma tokenize_bool:
  "tokenize Outside ((if b then ''true'' else ''false'') @ rest)
     = emit (TLit (JBool b)) (tokenize Outside rest)"
  by (simp add: is_ws_def)

lemma parse_stringify_prefs:
  "JSON_parse_text (JSON_stringify (JObj [(''show24h'', JBool b), (''sortOrder'', JStr t)]))
     = Inr (JObj [(''show24h'', JBool b), (''sortOrder'', JStr t)])"
proof -
  have shape: "JSON_stringify (JObj [(''show24h'', JBool b), (''sortOrder'', JStr t)])
      = CHR ''{'' # QuoteJSONString ''show24h'' @ CHR '':'' # (if b then ''true'' else ''false'')
        @ CHR '','' # QuoteJSONString ''sortOrder'' @ CHR '':'' # QuoteJSONString t @ ''}''"
    by simp
  have "tokenize Outside (JSON_stringify (JObj [(''show24h'', JBool b), (''sortOrder'', JStr t)]))
      = Inr [TLBrace, TStr ''show24h'', TColon, TLit (JBool b), TComma,
             TStr ''sortOrder'', TColon, TStr t, TRBrace]"
    unfolding shape
    by (simp add: tokenize_QuoteJSONString tokenize_bool tokenize_comma is_ws_def emit_def
        del: tokenize.simps(4))
  then show ?thesis
    by (simp add: JSON_parse_text_def step_tok_def put_prop_def not_index_show24h
        not_index_sortOrder del: JSON_stringify.simps)
qed

section \<open>What each function leaves unchanged\<close>

lemma updateLocal_fields [simp]:
  "selectedCoins (updateLocal s) = selectedCoins s"
  "userPrefs (updateLocal s) = userPrefs s"
  "alerts (updateLocal s) = alerts s"
  "requests (updateLocal s) = requests s"
  "compareBtn_disabled (updateLocal s) = compareBtn_disabled s"
  by (simp_all add: updateLocal_def)

lemma loadData_fetch_fields [simp]:
  "selectedCoins (state_of (loadData_fetch s)) = selectedCoins s"
  "userPrefs (state_of (loadData_fetch s)) = userPrefs s"
  "alerts (state_of (loadData_fetch s)) = alerts s"
  "localStorage (state_of (loadData_fetch s)) = localStorage s"
  "compareBtn_disabled (state_of (loadData_fetch s)) = compareBtn_disabled s"
  by (simp_all add: loadData_fetch_def split: sum.splits)

lemma crypto_cards_fields [simp]:
  "selectedCoins (state_of (crypto_cards P i coins s)) = selectedCoins s"
  "userPrefs (state_of (crypto_cards P i coins s)) = userPrefs s"
  "compareBtn_disabled (state_of (crypto_cards P i coins s)) = compareBtn_disabled s"
  by (induction coins arbitrary: i s; simp split: sum.splits)+

lemma selected_cards_fields [simp]:
  "selectedCoins (state_of (selected_cards P coins s)) = selectedCoins s"
  "userPrefs (state_of (selected_cards P coins s)) = userPrefs s"
  "compareBtn_disabled (state_of (selected_cards P coins s)) = compareBtn_disabled s"
  by (induction coins arbitrary: s; simp split: sum.splits)+

lemma renderCryptoList_fields [simp]:
  "selectedCoins (state_of (renderCryptoList P coins s)) = selectedCoins s"
  "userPrefs (state_of (renderCryptoList P coins s)) = userPrefs s"
  by (simp_all add: renderCryptoList_def)

lemma selected_cards_result:
  "selected_cards P coins s = r \<Longrightarrow>
   selectedCoins (state_of r) = selectedCoins s \<and> userPrefs (state_of r) = userPrefs s
   \<and> compareBtn_disabled (state_of r) = compareBtn_disabled s"
  by auto

lemma renderSelected_fields [simp]:
  "selectedCoins (state_of (renderSelected P coins s)) = selectedCoins s"
  "userPrefs (state_of (renderSelected P coins s)) = userPrefs s"
  by (auto simp: renderSelected_def Let_def split: sum.splits completion.splits
      dest!: selected_cards_result)

lemma loadData_render_fields [simp]:
  "selectedCoins (state_of (loadData_render P coins s)) = selectedCoins s"
  "userPrefs (state_of (loadData_render P coins s)) = userPrefs s"
proof -
  have "selectedCoins (state_of (loadData_render P coins s)) = selectedCoins s
      \<and> userPrefs (state_of (loadData_render P coins s)) = userPrefs s"
  proof (cases "renderCryptoList P coins s")
    case (Normal s1)
    then have "selectedCoins s1 = selectedCoins s" "userPrefs s1 = userPrefs s"
      using renderCryptoList_fields [of P coins s] by simp_all
    then show ?thesis by (simp add: loadData_render_def Normal)
  next
    case (Abrupt e s1)
    then have "selectedCoins s1 = selectedCoins s" "userPrefs s1 = userPrefs s"
      using renderCryptoList_fields [of P coins s] by simp_all
    then show ?thesis by (simp add: loadData_render_def Abrupt)
  qed
  then show "selectedCoins (state_of (loadData_render P coins s)) = selectedCoins s"
    and "userPrefs (state_of (loadData_render P coins s)) = userPrefs s"
    by simp_all
qed

lemma rendering_keeps_requests:
  "requests (state_of (crypto_cards P i coins s)) = requests s"
  "requests (state_of (selected_cards P coins s)) = requests s"
  by (induction coins arbitrary: i s; simp split: sum.splits)+

lemma renderSelected_requests: "requests (state_of (renderSelected P coins s)) = requests s"
proof -
  let ?s1 = "s\<lparr>selectedContainer := []\<rparr>"
  have cards: "requests (state_of (selected_cards P chosen ?s1)) = requests s" for chosen
    by (simp add: rendering_keeps_requests)
  show ?thesis
  proof (cases "selectedData (selectedCoins ?s1) coins")
    case (Inl e)
    then show ?thesis by (simp add: renderSelected_def)
  next
    case (Inr chosen)
    show ?thesis
    proof (cases "selected_cards P chosen ?s1")
      case (Normal s2)
      then have "requests s2 = requests s"
        using cards [of chosen] by simp
      then show ?thesis
        using Inr Normal by (simp add: renderSelected_def split: sum.splits)
    next
      case (Abrupt e s2)
      then have "requests s2 = requests s"
        using cards [of chosen] by simp
      then show ?thesis
        using Inr Abrupt by (simp add: renderSelected_def)
    qed
  qed
qed

lemma loadData_render_requests:
  "requests (state_of (loadData_render P coins s)) = requests s"
proof (cases "renderCryptoList P coins s")
  case (Normal s1)
  then have "requests s1 = requests s"
    using rendering_keeps_requests(1) [of P 0 coins "s\<lparr>cryptoContainer := []\<rparr>"]
    by (simp add: renderCryptoList_def)
  then show ?thesis
    by (simp add: loadData_render_def Normal renderSelected_requests)
next
  case (Abrupt e s1)
  then have "requests s1 = requests s"
    using rendering_keeps_requests(1) [of P 0 coins "s\<lparr>cryptoContainer := []\<rparr>"]
    by (simp add: renderCryptoList_def)
  then show ?thesis
    by (simp add: loadData_render_def Abrupt)
qed

lemma toggleCoin_selection:
  "selectedCoins s = JArr xs \<Longrightarrow>
   selectedCoins (state_of (toggleCoin i s))
     = JArr (if JStr i \<in> set xs then filter (\<lambda>c. c \<noteq> JStr i) xs
             else if length xs < 5 then xs @ [JStr i] else xs)"
  by (simp add: toggleCoin_def)

lemma toggleCoin_alerts:
  "selectedCoins s = JArr xs \<Longrightarrow>
   alerts (state_of (toggleCoin i s))
     = (if JStr i \<notin> set xs \<and> \<not> length xs < 5 then alerts s @ [capacity_notice] else alerts s)"
  by (simp add: toggleCoin_def)

lemma toggleCoin_userPrefs [simp]: "userPrefs (state_of (toggleCoin i s)) = userPrefs s"
  by (simp add: toggleCoin_def split: jsval.splits)

lemma removeCoin_selection:
  "selectedCoins s = JArr xs \<Longrightarrow>
   selectedCoins (state_of (removeCoin i s)) = JArr (filter (\<lambda>c. c \<noteq> JStr i) xs)"
  by (simp add: removeCoin_def)

lemma removeCoin_userPrefs [simp]: "userPrefs (state_of (removeCoin i s)) = userPrefs s"
  by (simp add: removeCoin_def split: jsval.splits)

lemma show24h_changed_selection [simp]:
  "selectedCoins (state_of (show24h_changed b s)) = selectedCoins s"
  by (simp add: show24h_changed_def split: sum.splits)

lemma sort_changed_selection [simp]:
  "selectedCoins (state_of (sort_changed v s)) = selectedCoins s"
  by (simp add: sort_changed_def split: sum.splits)

section \<open>The Selection Set stays bounded and duplicate-free\<close>

lemma dispatch_within_capacity:
  assumes "within_capacity (selectedCoins s)"
  shows "within_capacity (selectedCoins (state_of (dispatch P e s)))"
proof -
  obtain xs where xs: "selectedCoins s = JArr xs" "length xs \<le> 5" "distinct xs"
    using assms by (cases "selectedCoins s") simp_all
  show ?thesis
  proof (cases e)
    case (CardClick i)
    then show ?thesis
      using xs by (simp add: toggleCoin_selection le_trans [OF length_filter_le])
  next
    case (RemoveClick i)
    then show ?thesis
      using xs by (simp add: removeCoin_selection le_trans [OF length_filter_le])
  qed (use assms in simp_all)
qed

lemma run_invariant:
  assumes step: "\<And>e s. I s \<Longrightarrow> I (state_of (dispatch P e s))"
  shows "I s \<Longrightarrow> I (state_of (run P evs s))"
proof (induction evs arbitrary: s)
  case Nil
  then show ?case by simp
next
  case (Cons e evs)
  have next_ok: "I (state_of (dispatch P e s))"
    using Cons.prems by (rule step)
  show ?case
  proof (cases "dispatch P e s")
    case (Normal s1)
    then show ?thesis using next_ok Cons.IH [of s1] by simp
  next
    case (Abrupt f s1)
    then show ?thesis using next_ok Cons.IH [of s1] by (cases f) simp_all
  qed
qed

text \<open>
  Claim C1. For every sequence of events starting from an empty Selection Set (clicks on
  cards and on Remove buttons, that is toggle and remove operations, and also changes of
  the preferences, timer ticks and responses), the Selection Set has at most 5 elements
  and holds no identifier twice.
\<close>

theorem selection_bounded_and_duplicate_free:
  assumes "selectedCoins s = JArr []"
  shows "within_capacity (selectedCoins (state_of (run P evs s)))"
proof -
  have "within_capacity (selectedCoins s)"
    using assms by simp
  then show ?thesis
    by (rule run_invariant [where I = "\<lambda>s. within_capacity (selectedCoins s)", rotated])
       (rule dispatch_within_capacity)
qed

theorem selection_bounded_witness:
  "selectedCoins fresh = JArr []
   \<and> within_capacity (selectedCoins (state_of (run demo_platform
         [CardClick ''a'', CardClick ''b'', CardClick ''c'', CardClick ''d'', CardClick ''e'',
          CardClick ''f'', CardClick ''a'', RemoveClick ''b''] fresh)))"
  using selection_bounded_and_duplicate_free [of fresh demo_platform
         "[CardClick ''a'', CardClick ''b'', CardClick ''c'', CardClick ''d'', CardClick ''e'',
          CardClick ''f'', CardClick ''a'', RemoveClick ''b'']"]
  by (simp add: fresh_def)

section \<open>Persisted storage reproduces the state\<close>

lemma filter_strings:
  "filter (\<lambda>c. c \<noteq> JStr i) (map JStr ids) = map JStr (filter (\<lambda>j. j \<noteq> i) ids)"
  by (induction ids) simp_all

lemma reload_selection:
  "selectedCoins s = JArr (map JStr ids) \<Longrightarrow>
   load_selectedCoins (localStorage (updateLocal s)) = Inr (selectedCoins s)"
  by (simp add: load_selectedCoins_def updateLocal_def JSON_parse_def
      parse_stringify_string_array del: JSON_stringify.simps)

lemma reload_prefs:
  "userPrefs s = JObj [(''show24h'', JBool b), (''sortOrder'', JStr t)] \<Longrightarrow>
   load_userPrefs (localStorage (updateLocal s)) = Inr (userPrefs s)"
  by (simp add: load_userPrefs_def updateLocal_def JSON_parse_def
      parse_stringify_prefs del: JSON_stringify.simps)

lemma loadData_fetch_string:
  "userPrefs s = JObj kvs \<Longrightarrow> map_of kvs ''sortOrder'' = Some (JStr t) \<Longrightarrow>
   loadData_fetch s = Normal (s\<lparr>requests := requests s @ [fetch_url t]\<rparr>)"
  by (simp add: loadData_fetch_def)

lemma persist_and_fetch:
  assumes sel: "selectedCoins s = JArr (map JStr ids)"
    and prefs: "userPrefs s = JObj [(''show24h'', JBool b), (''sortOrder'', JStr t)]"
  shows "\<exists>s'. loadData_fetch (updateLocal s) = Normal s'
           \<and> load_selectedCoins (localStorage s') = Inr (selectedCoins s')
           \<and> load_userPrefs (localStorage s') = Inr (userPrefs s')"
proof -
  let ?u = "updateLocal s"
  have "loadData_fetch ?u = Normal (?u\<lparr>requests := requests ?u @ [fetch_url t]\<rparr>)"
    by (rule loadData_fetch_string [where kvs = "[(''show24h'', JBool b), (''sortOrder'', JStr t)]"])
       (simp_all add: prefs)
  moreover have "load_selectedCoins (localStorage ?u) = Inr (selectedCoins s)"
    using sel by (rule reload_selection)
  moreover have "load_userPrefs (localStorage ?u) = Inr (userPrefs s)"
    using prefs by (rule reload_prefs)
  ultimately show ?thesis by simp
qed

lemma bitcoin_text:
  "JSON_stringify (JArr [JStr ''bitcoin''])
     = ''['' @ [CHR 0x22] @ ''bitcoin'' @ [CHR 0x22] @ '']''"
  by (simp add: QuoteJSONString_def QuoteJSONChar_def)

text \<open>
  Claim C2. Let the Selection Set be an array of identifiers and the Preferences a record
  of a boolean \<^verbatim>\<open>show24h\<close> and a string \<^verbatim>\<open>sortOrder\<close>. The handler of every mutating
  event (toggle, remove, setShow24h, setSortOrder) completes, and reading the two keys of
  the persisted storage afterwards, as the script does when it starts, gives exactly the
  in-memory Selection Set and Preferences. After toggle of \<^verbatim>\<open>bitcoin\<close> on an empty
  Selection Set the text stored under \<^verbatim>\<open>selectedCoins\<close> is \<^verbatim>\<open>["bitcoin"]\<close>.
\<close>

theorem persisted_state_reloads:
  assumes sel: "selectedCoins s = JArr (map JStr ids)"
    and prefs: "userPrefs s = JObj [(''show24h'', JBool b), (''sortOrder'', JStr t)]"
    and ev: "mutating e"
  shows "(\<exists>s'. dispatch P e s = Normal s'
            \<and> load_selectedCoins (localStorage s') = Inr (selectedCoins s')
            \<and> load_userPrefs (localStorage s') = Inr (userPrefs s'))
         \<and> (ids = [] \<longrightarrow>
              localStorage (state_of (toggleCoin ''bitcoin'' s)) ''selectedCoins''
                = Some (''['' @ [CHR 0x22] @ ''bitcoin'' @ [CHR 0x22] @ '']''))"
proof
  show "\<exists>s'. dispatch P e s = Normal s'
            \<and> load_selectedCoins (localStorage s') = Inr (selectedCoins s')
            \<and> load_userPrefs (localStorage s') = Inr (userPrefs s')"
  proof (cases e)
    case (CardClick i)
    let ?next = "if i \<in> set ids then filter (\<lambda>j. j \<noteq> i) ids
                 else if length ids < 5 then ids @ [i] else ids"
    let ?s1 = "if i \<in> set ids then s\<lparr>selectedCoins := JArr (map JStr (filter (\<lambda>j. j \<noteq> i) ids))\<rparr>
               else if length ids < 5 then s\<lparr>selectedCoins := JArr (map JStr (ids @ [i]))\<rparr>
               else s\<lparr>alerts := alerts s @ [capacity_notice]\<rparr>"
    have run: "toggleCoin i s = loadData_fetch (updateLocal ?s1)"
      using sel by (auto simp: toggleCoin_def filter_strings)
    have "selectedCoins ?s1 = JArr (map JStr ?next)"
      using sel by simp
    moreover have "userPrefs ?s1 = JObj [(''show24h'', JBool b), (''sortOrder'', JStr t)]"
      using prefs by simp
    ultimately show ?thesis
      unfolding CardClick dispatch.simps run by (rule persist_and_fetch)
  next
    case (RemoveClick i)
    let ?s1 = "s\<lparr>selectedCoins := JArr (map JStr (filter (\<lambda>j. j \<noteq> i) ids))\<rparr>"
    have run: "removeCoin i s = loadData_fetch (updateLocal ?s1)"
      using sel by (simp add: removeCoin_def filter_strings)
    have "selectedCoins ?s1 = JArr (map JStr (filter (\<lambda>j. j \<noteq> i) ids))"
      by simp
    moreover have "userPrefs ?s1 = JObj [(''show24h'', JBool b), (''sortOrder'', JStr t)]"
      using prefs by simp
    ultimately show ?thesis
      unfolding RemoveClick dispatch.simps run by (rule persist_and_fetch)
  next
    case (Show24hChange c)
    let ?s1 = "s\<lparr>userPrefs := JObj [(''show24h'', JBool c), (''sortOrder'', JStr t)]\<rparr>"
    have run: "show24h_changed c s = loadData_fetch (updateLocal ?s1)"
      using prefs by (simp add: show24h_changed_def put_prop_def)
    have "selectedCoins ?s1 = JArr (map JStr ids)"
      using sel by simp
    moreover have "userPrefs ?s1 = JObj [(''show24h'', JBool c), (''sortOrder'', JStr t)]"
      by simp
    ultimately show ?thesis
      unfolding Show24hChange dispatch.simps run by (rule persist_and_fetch)
  next
    case (SortChange v)
    let ?s1 = "s\<lparr>userPrefs := JObj [(''show24h'', JBool b), (''sortOrder'', JStr v)]\<rparr>"
    have run: "sort_changed v s = loadData_fetch (updateLocal ?s1)"
      using prefs by (simp add: sort_changed_def put_prop_def)
    have "selectedCoins ?s1 = JArr (map JStr ids)"
      using sel by simp
    moreover have "userPrefs ?s1 = JObj [(''show24h'', JBool b), (''sortOrder'', JStr v)]"
      by simp
    ultimately show ?thesis
      unfolding SortChange dispatch.simps run by (rule persist_and_fetch)
  qed (use ev in simp_all)
next
  show "ids = [] \<longrightarrow>
          localStorage (state_of (toggleCoin ''bitcoin'' s)) ''selectedCoins''
            = Some (''['' @ [CHR 0x22] @ ''bitcoin'' @ [CHR 0x22] @ '']'')"
  proof
    assume "ids = []"
    then have "selectedCoins s = JArr []"
      using sel by simp
    then have "localStorage (state_of (toggleCoin ''bitcoin'' s)) ''selectedCoins''
        = Some (JSON_stringify (JArr [JStr ''bitcoin'']))"
      by (simp add: toggleCoin_def updateLocal_def del: JSON_stringify.simps)
    then show "localStorage (state_of (toggleCoin ''bitcoin'' s)) ''selectedCoins''
        = Some (''['' @ [CHR 0x22] @ ''bitcoin'' @ [CHR 0x22] @ '']'')"
      by (simp only: bitcoin_text)
  qed
qed

theorem persisted_state_reloads_witness:
  "selectedCoins fresh = JArr (map JStr [])
   \<and> userPrefs fresh = JObj [(''show24h'', JBool False), (''sortOrder'', JStr ''market_cap_desc'')]
   \<and> mutating (CardClick ''bitcoin'' :: string event)
   \<and> (\<exists>s'. dispatch demo_platform (CardClick ''bitcoin'') fresh = Normal s'
            \<and> load_selectedCoins (localStorage s') = Inr (selectedCoins s')
            \<and> load_userPrefs (localStorage s') = Inr (userPrefs s'))
   \<and> localStorage (state_of (toggleCoin ''bitcoin'' fresh)) ''selectedCoins''
        = Some (''['' @ [CHR 0x22] @ ''bitcoin'' @ [CHR 0x22] @ '']'')"
  using persisted_state_reloads [of fresh "[]" False "''market_cap_desc''"
      "CardClick ''bitcoin''" demo_platform]
  by (simp add: fresh_def default_prefs_def)

section \<open>Well-typed states\<close>

text \<open>
  A state is well typed when the Selection Set is an array of identifier strings and the
  Preferences are a record of a boolean \<^verbatim>\<open>show24h\<close> and a string \<^verbatim>\<open>sortOrder\<close>. The first
  state is well typed, every event keeps a well-typed state well typed, and no handler
  leaves the model from one: a run from a well-typed state handles all its events.
\<close>

lemma well_typed_fresh: "well_typed fresh"
  by (auto simp: well_typed_def fresh_def default_prefs_def)

lemma crypto_cards_not_silent:
  "userPrefs s = JObj kvs \<Longrightarrow> \<not> silent (crypto_cards P i coins s)"
proof (induction coins arbitrary: i s)
  case Nil
  show ?case by simp
next
  case (Cons c coins)
  show ?case
  proof (cases "crypto_card_html P (userPrefs s) c")
    case (Inl e)
    then have "e = TypeError"
      using Cons.prems
      by (auto simp: crypto_card_html_def change_line_def split: if_splits option.splits sum.splits)
    then show ?thesis using Inl by simp
  next
    case (Inr h)
    then show ?thesis using Cons.prems by (simp add: Cons.IH)
  qed
qed

lemma selected_cards_not_silent:
  "userPrefs s = JObj kvs \<Longrightarrow> \<not> silent (selected_cards P coins s)"
proof (induction coins arbitrary: s)
  case Nil
  show ?case by simp
next
  case (Cons c coins)
  show ?case
  proof (cases "selected_card_html P (userPrefs s) c")
    case (Inl e)
    then have "e = TypeError"
      using Cons.prems
      by (auto simp: selected_card_html_def change_line_def split: if_splits option.splits sum.splits)
    then show ?thesis using Inl by simp
  next
    case (Inr h)
    then show ?thesis using Cons.prems by (simp add: Cons.IH)
  qed
qed

lemma selectedData_array: "\<exists>chosen. selectedData (JArr xs) coins = Inr chosen"
  by (induction coins) auto

lemma renderSelected_not_silent:
  assumes "selectedCoins s = JArr xs" and "userPrefs s = JObj kvs"
  shows "\<not> silent (renderSelected P coins s)"
proof -
  let ?s1 = "s\<lparr>selectedContainer := []\<rparr>"
  obtain chosen where chosen: "selectedData (JArr xs) coins = Inr chosen"
    using selectedData_array by blast
  have prefs: "userPrefs ?s1 = JObj kvs"
    using assms(2) by simp
  show ?thesis
  proof (cases "selected_cards P chosen ?s1")
    case (Normal s2)
    then have "selectedCoins s2 = JArr xs"
      using selected_cards_result [OF Normal] assms(1) by simp
    then show ?thesis
      using assms(1) chosen Normal by (simp add: renderSelected_def)
  next
    case (Abrupt e s2)
    then have "e \<noteq> Unmodelled"
      using selected_cards_not_silent [OF prefs, of P chosen] by simp
    then show ?thesis
      using assms(1) chosen Abrupt by (simp add: renderSelected_def)
  qed
qed

lemma loadData_render_not_silent:
  assumes "selectedCoins s = JArr xs" and "userPrefs s = JObj kvs"
  shows "\<not> silent (loadData_render P coins s)"
proof (cases "renderCryptoList P coins s")
  case (Normal s1)
  then have "selectedCoins s1 = JArr xs" "userPrefs s1 = JObj kvs"
    using renderCryptoList_fields [of P coins s] assms by simp_all
  then have "\<not> silent (renderSelected P coins s1)"
    by (rule renderSelected_not_silent)
  then show ?thesis by (simp add: loadData_render_def Normal)
next
  case (Abrupt e s1)
  have "userPrefs (s\<lparr>cryptoContainer := []\<rparr>) = JObj kvs"
    using assms(2) by simp
  then have "\<not> silent (crypto_cards P 0 coins (s\<lparr>cryptoContainer := []\<rparr>))"
    by (rule crypto_cards_not_silent)
  then show ?thesis
    using Abrupt by (simp add: loadData_render_def renderCryptoList_def)
qed

lemma dispatch_well_typed:
  assumes "well_typed s"
  shows "\<not> silent (dispatch P e s) \<and> well_typed (state_of (dispatch P e s))"
proof -
  obtain ids b t where sel: "selectedCoins s = JArr (map JStr ids)"
    and prefs: "userPrefs s = JObj [(''show24h'', JBool b), (''sortOrder'', JStr t)]"
    using assms by (auto simp: well_typed_def)
  have fetch: "loadData_fetch s' = Normal (s'\<lparr>requests := requests s' @ [fetch_url t']\<rparr>)"
    if "userPrefs s' = JObj [(''show24h'', JBool b'), (''sortOrder'', JStr t')]" for s' b' t'
    using that by (simp add: loadData_fetch_def)
  show ?thesis
  proof (cases e)
    case (CardClick i)
    have typed: "\<exists>ids'. selectedCoins (state_of (toggleCoin i s)) = JArr (map JStr ids')"
    proof (cases "i \<in> set ids")
      case True
      then have "selectedCoins (state_of (toggleCoin i s))
          = JArr (map JStr (filter (\<lambda>j. j \<noteq> i) ids))"
        using sel by (auto simp: toggleCoin_selection filter_strings)
      then show ?thesis by blast
    next
      case False
      then have "selectedCoins (state_of (toggleCoin i s))
          = JArr (map JStr (if length ids < 5 then ids @ [i] else ids))"
        using sel by (auto simp: toggleCoin_selection)
      then show ?thesis by blast
    qed
    have "\<not> silent (toggleCoin i s)"
      using sel prefs by (simp add: toggleCoin_def fetch)
    then show ?thesis
      using typed prefs by (simp add: CardClick well_typed_def)
  next
    case (RemoveClick i)
    have "selectedCoins (state_of (removeCoin i s)) = JArr (map JStr (filter (\<lambda>j. j \<noteq> i) ids))"
      using sel by (simp add: removeCoin_selection filter_strings)
    then have typed: "\<exists>ids'. selectedCoins (state_of (removeCoin i s)) = JArr (map JStr ids')"
      by blast
    have "\<not> silent (removeCoin i s)"
      using sel prefs by (simp add: removeCoin_def fetch)
    then show ?thesis
      using typed prefs by (simp add: RemoveClick well_typed_def)
  next
    case (Show24hChange c)
    then show ?thesis
      using sel prefs
      by (auto simp: show24h_changed_def put_prop_def fetch well_typed_def)
  next
    case (SortChange v)
    then show ?thesis
      using sel prefs
      by (auto simp: sort_changed_def put_prop_def fetch well_typed_def)
  next
    case Timer
    then show ?thesis
      using sel prefs by (auto simp: fetch well_typed_def)
  next
    case (Response coins)
    have "\<not> silent (loadData_render P coins s)"
      using sel prefs by (rule loadData_render_not_silent)
    then show ?thesis
      using sel prefs by (auto simp: Response well_typed_def)
  qed
qed

lemma run_well_typed:
  "well_typed s \<Longrightarrow> \<exists>s'. run P evs s = Normal s' \<and> well_typed s'"
proof (induction evs arbitrary: s)
  case Nil
  then show ?case by simp
next
  case (Cons e evs)
  have step: "\<not> silent (dispatch P e s)" "well_typed (state_of (dispatch P e s))"
    using dispatch_well_typed [OF Cons.prems, of P e] by blast+
  show ?case
  proof (cases "dispatch P e s")
    case (Normal s1)
    then show ?thesis using step Cons.IH [of s1] by simp
  next
    case (Abrupt f s1)
    then show ?thesis using step Cons.IH [of s1] by (cases f) simp_all
  qed
qed

section \<open>Toggling twice\<close>

text \<open>
  Claim C3, as stated, fails: toggling a present identifier removes it, and the second
  toggle appends it at the end. On \<^verbatim>\<open>["bitcoin","ethereum"]\<close>, two toggles of
  \<^verbatim>\<open>bitcoin\<close> show no capacity notice and leave \<^verbatim>\<open>["ethereum","bitcoin"]\<close>.
\<close>

theorem toggle_twice_counterexample:
  "selectedCoins two_coins = JArr [JStr ''bitcoin'', JStr ''ethereum'']
   \<and> selectedCoins (state_of (toggleCoin ''bitcoin'' (state_of (toggleCoin ''bitcoin'' two_coins))))
       = JArr [JStr ''ethereum'', JStr ''bitcoin'']
   \<and> alerts (state_of (toggleCoin ''bitcoin'' (state_of (toggleCoin ''bitcoin'' two_coins))))
       = alerts two_coins
   \<and> selectedCoins (state_of (toggleCoin ''bitcoin'' (state_of (toggleCoin ''bitcoin'' two_coins))))
       \<noteq> selectedCoins two_coins"
  by (simp add: two_coins_def fresh_def toggleCoin_selection toggleCoin_alerts)

text \<open>
  Claim C3, amended. Let the Selection Set be the sequence \<open>xs\<close>, and let two successive
  toggles of \<open>i\<close> show no capacity notice. Then the Selection Set has the same members as
  before. If \<open>i\<close> was absent, the sequence is exactly \<open>xs\<close> again; if \<open>i\<close> was present, it is
  \<open>xs\<close> without \<open>i\<close>, followed by \<open>i\<close>.
\<close>

theorem toggle_twice:
  assumes sel: "selectedCoins s = JArr xs"
    and quiet: "alerts (state_of (toggleCoin i (state_of (toggleCoin i s)))) = alerts s"
  shows "\<exists>ys. selectedCoins (state_of (toggleCoin i (state_of (toggleCoin i s)))) = JArr ys
           \<and> set ys = set xs
           \<and> ys = (if JStr i \<in> set xs then filter (\<lambda>c. c \<noteq> JStr i) xs @ [JStr i] else xs)"
proof (cases "JStr i \<in> set xs")
  case True
  let ?s1 = "state_of (toggleCoin i s)"
  let ?zs = "filter (\<lambda>c. c \<noteq> JStr i) xs"
  have s1: "selectedCoins ?s1 = JArr ?zs"
    using sel True by (simp add: toggleCoin_selection)
  have a1: "alerts ?s1 = alerts s"
    using sel True by (simp add: toggleCoin_alerts)
  have room: "length ?zs < 5"
  proof (rule ccontr)
    assume "\<not> length ?zs < 5"
    then have "alerts (state_of (toggleCoin i ?s1)) = alerts s @ [capacity_notice]"
      using s1 a1 by (simp add: toggleCoin_alerts)
    then show False using quiet by simp
  qed
  have "selectedCoins (state_of (toggleCoin i ?s1)) = JArr (?zs @ [JStr i])"
    using s1 room by (simp add: toggleCoin_selection)
  moreover have "set (?zs @ [JStr i]) = set xs"
    using True by auto
  ultimately show ?thesis using True by simp
next
  case False
  let ?s1 = "state_of (toggleCoin i s)"
  have room: "length xs < 5"
  proof (rule ccontr)
    assume full: "\<not> length xs < 5"
    then have s1: "selectedCoins ?s1 = JArr xs" and a1: "alerts ?s1 = alerts s @ [capacity_notice]"
      using sel False by (simp_all add: toggleCoin_selection toggleCoin_alerts)
    have "alerts (state_of (toggleCoin i ?s1)) = alerts s @ [capacity_notice, capacity_notice]"
      using s1 a1 False full by (simp add: toggleCoin_alerts)
    then show False using quiet by simp
  qed
  have s1: "selectedCoins ?s1 = JArr (xs @ [JStr i])"
    using sel False room by (simp add: toggleCoin_selection)
  have "filter (\<lambda>c. c \<noteq> JStr i) xs = xs"
    using False by (auto simp: filter_id_conv)
  then have "selectedCoins (state_of (toggleCoin i ?s1)) = JArr xs"
    using s1 by (simp add: toggleCoin_selection)
  then show ?thesis using False by simp
qed

theorem toggle_twice_witness:
  "selectedCoins two_coins = JArr [JStr ''bitcoin'', JStr ''ethereum'']
   \<and> alerts (state_of (toggleCoin ''tether'' (state_of (toggleCoin ''tether'' two_coins))))
       = alerts two_coins
   \<and> (\<exists>ys. selectedCoins (state_of (toggleCoin ''tether'' (state_of (toggleCoin ''tether'' two_coins))))
             = JArr ys
           \<and> set ys = set [JStr ''bitcoin'', JStr ''ethereum'']
           \<and> ys = [JStr ''bitcoin'', JStr ''ethereum''])"
  using toggle_twice [of two_coins "[JStr ''bitcoin'', JStr ''ethereum'']" "''tether''"]
  by (simp add: two_coins_def fresh_def toggleCoin_alerts toggleCoin_selection)

section \<open>The sixth coin\<close>

lemma five_selected_fields:
  "selectedCoins five_selected
     = JArr (map JStr [''bitcoin'', ''ethereum'', ''tether'', ''solana'', ''cardano''])"
  "userPrefs five_selected = default_prefs"
  "alerts five_selected = []"
  by (simp_all add: five_selected_def fresh_def toggleCoin_def updateLocal_def
      loadData_fetch_def default_prefs_def)

lemma toggleCoin_requests:
  "selectedCoins s = JArr xs \<Longrightarrow>
   requests (state_of (toggleCoin i s)) = requests (state_of (loadData_fetch s))"
  by (simp add: toggleCoin_def loadData_fetch_def split: sum.splits)

text \<open>
  Claim C4, as stated, fails in one part: the operation is not aborted. After the notice
  \<^verbatim>\<open>toggleCoin\<close> does not return; it goes on to \<^verbatim>\<open>updateLocal()\<close> and \<^verbatim>\<open>loadData()\<close> as
  on every other path. With five coins selected by five clicks, a click on a sixth card
  shows the notice and then issues one more request.
\<close>

theorem sixth_coin_not_aborted_counterexample:
  "selectedCoins five_selected
     = JArr (map JStr [''bitcoin'', ''ethereum'', ''tether'', ''solana'', ''cardano''])
   \<and> alerts (state_of (toggleCoin ''dogecoin'' five_selected))
       = [''You can only compare up to 5 coins.'']
   \<and> requests (state_of (toggleCoin ''dogecoin'' five_selected))
       = requests five_selected
         @ [''https://api.coingecko.com/api/v3/coins/markets''
            @ ''?vs_currency=usd&order=market_cap_desc&per_page=50&page=1'']
   \<and> length (requests (state_of (toggleCoin ''dogecoin'' five_selected)))
       = Suc (length (requests five_selected))
   \<and> state_of (toggleCoin ''dogecoin'' five_selected)
       \<noteq> five_selected\<lparr>alerts := alerts five_selected @ [''You can only compare up to 5 coins.'']\<rparr>"
proof -
  have sel: "selectedCoins five_selected
      = JArr (map JStr [''bitcoin'', ''ethereum'', ''tether'', ''solana'', ''cardano''])"
    by (rule five_selected_fields)
  have notice: "alerts (state_of (toggleCoin ''dogecoin'' five_selected))
      = [''You can only compare up to 5 coins.'']"
    by (simp add: toggleCoin_alerts [OF sel] five_selected_fields capacity_notice_def)
  have more: "requests (state_of (toggleCoin ''dogecoin'' five_selected))
      = requests five_selected
        @ [''https://api.coingecko.com/api/v3/coins/markets''
           @ ''?vs_currency=usd&order=market_cap_desc&per_page=50&page=1'']"
    by (simp add: toggleCoin_requests [OF sel] loadData_fetch_def five_selected_fields
        default_prefs_def fetch_url_def API_ENDPOINT_def)
  have "requests (state_of (toggleCoin ''dogecoin'' five_selected))
      \<noteq> requests (five_selected\<lparr>alerts := alerts five_selected
            @ [''You can only compare up to 5 coins.'']\<rparr>)"
    unfolding more by simp
  then have differs: "state_of (toggleCoin ''dogecoin'' five_selected)
      \<noteq> five_selected\<lparr>alerts := alerts five_selected @ [''You can only compare up to 5 coins.'']\<rparr>"
    by metis
  show ?thesis
    using sel notice differs by (simp add: more)
qed

text \<open>
  Claim C4, amended. When \<^verbatim>\<open>toggleCoin(id)\<close> is called with an identifier that is not
  selected while the Selection Set has 5 members, the capacity notice is shown and nothing
  is inserted: the Selection Set and the Preferences are as before, and the text then
  stored under \<^verbatim>\<open>selectedCoins\<close> loads back to that same Selection Set. The operation is
  not aborted: the handler writes both keys of the storage with the serialised, unchanged
  state, and issues the request of a fetch cycle; when the sort order is the string
  \<open>token\<close>, that is exactly one more request, for \<^verbatim>\<open>order=token\<close>.
\<close>

theorem sixth_coin_rejected:
  assumes sel: "selectedCoins s = JArr (map JStr ids)"
    and full: "length ids = 5"
    and new: "i \<notin> set ids"
  shows "alerts (state_of (toggleCoin i s)) = alerts s @ [''You can only compare up to 5 coins.'']
         \<and> selectedCoins (state_of (toggleCoin i s)) = selectedCoins s
         \<and> userPrefs (state_of (toggleCoin i s)) = userPrefs s
         \<and> load_selectedCoins (localStorage (state_of (toggleCoin i s))) = Inr (selectedCoins s)
         \<and> localStorage (state_of (toggleCoin i s))
             = (localStorage s)
                 (''selectedCoins'' \<mapsto> JSON_stringify (selectedCoins s),
                  ''userPrefs'' \<mapsto> JSON_stringify (userPrefs s))
         \<and> requests (state_of (toggleCoin i s)) = requests (state_of (loadData_fetch s))
         \<and> (Get (userPrefs s) ''sortOrder'' = Inr (Some (JStr token)) \<longrightarrow>
              requests (state_of (toggleCoin i s))
                = requests s
                  @ [''https://api.coingecko.com/api/v3/coins/markets?vs_currency=usd&order=''
                     @ token @ ''&per_page=50&page=1''])"
proof -
  let ?s1 = "s\<lparr>alerts := alerts s @ [capacity_notice]\<rparr>"
  have absent: "JStr i \<notin> set (map JStr ids)"
    using new by auto
  have run: "toggleCoin i s = loadData_fetch (updateLocal ?s1)"
    using sel full absent by (simp add: toggleCoin_def)
  have "selectedCoins ?s1 = JArr (map JStr ids)"
    using sel by simp
  then have reload: "load_selectedCoins (localStorage (updateLocal ?s1)) = Inr (selectedCoins ?s1)"
    by (rule reload_selection)
  have written: "localStorage (updateLocal ?s1)
      = (localStorage s)
          (''selectedCoins'' \<mapsto> JSON_stringify (selectedCoins s),
           ''userPrefs'' \<mapsto> JSON_stringify (userPrefs s))"
    by (simp add: updateLocal_def del: JSON_stringify.simps)
  have cycle: "requests (state_of (toggleCoin i s)) = requests (state_of (loadData_fetch s))"
    using sel by (rule toggleCoin_requests)
  have one_more: "requests (state_of (loadData_fetch s))
      = requests s
        @ [''https://api.coingecko.com/api/v3/coins/markets?vs_currency=usd&order=''
           @ token @ ''&per_page=50&page=1'']"
    if "Get (userPrefs s) ''sortOrder'' = Inr (Some (JStr token))"
    using that by (simp add: loadData_fetch_def fetch_url_def API_ENDPOINT_def)
  have "alerts (state_of (toggleCoin i s)) = alerts s @ [''You can only compare up to 5 coins.'']"
    unfolding run by (simp add: capacity_notice_def)
  moreover have "selectedCoins (state_of (toggleCoin i s)) = selectedCoins s"
    unfolding run by simp
  moreover have "userPrefs (state_of (toggleCoin i s)) = userPrefs s"
    by simp
  moreover have "load_selectedCoins (localStorage (state_of (toggleCoin i s)))
      = Inr (selectedCoins s)"
    unfolding run using reload by simp
  moreover have "localStorage (state_of (toggleCoin i s))
      = (localStorage s)
          (''selectedCoins'' \<mapsto> JSON_stringify (selectedCoins s),
           ''userPrefs'' \<mapsto> JSON_stringify (userPrefs s))"
    unfolding run using written by simp
  ultimately show ?thesis
    using cycle one_more by simp
qed

theorem sixth_coin_rejected_witness:
  "selectedCoins five_selected
     = JArr (map JStr [''bitcoin'', ''ethereum'', ''tether'', ''solana'', ''cardano''])
   \<and> length [''bitcoin'', ''ethereum'', ''tether'', ''solana'', ''cardano''] = 5
   \<and> ''dogecoin'' \<notin> set [''bitcoin'', ''ethereum'', ''tether'', ''solana'', ''cardano'']
   \<and> Get (userPrefs five_selected) ''sortOrder'' = Inr (Some (JStr ''market_cap_desc''))
   \<and> alerts (state_of (toggleCoin ''dogecoin'' five_selected))
       = alerts five_selected @ [''You can only compare up to 5 coins.'']
   \<and> selectedCoins (state_of (toggleCoin ''dogecoin'' five_selected))
       = selectedCoins five_selected
   \<and> userPrefs (state_of (toggleCoin ''dogecoin'' five_selected)) = userPrefs five_selected
   \<and> load_selectedCoins (localStorage (state_of (toggleCoin ''dogecoin'' five_selected)))
       = Inr (selectedCoins five_selected)
   \<and> requests (state_of (toggleCoin ''dogecoin'' five_selected))
       = requests five_selected
         @ [''https://api.coingecko.com/api/v3/coins/markets?vs_currency=usd&order=''
            @ ''market_cap_desc'' @ ''&per_page=50&page=1'']"
proof -
  have sel: "selectedCoins five_selected
      = JArr (map JStr [''bitcoin'', ''ethereum'', ''tether'', ''solana'', ''cardano''])"
    by (rule five_selected_fields)
  have order: "Get (userPrefs five_selected) ''sortOrder'' = Inr (Some (JStr ''market_cap_desc''))"
    by (simp add: five_selected_fields default_prefs_def)
  have full: "length [''bitcoin'', ''ethereum'', ''tether'', ''solana'', ''cardano''] = 5"
    by simp
  have new: "''dogecoin'' \<notin> set [''bitcoin'', ''ethereum'', ''tether'', ''solana'', ''cardano'']"
    by simp
  show ?thesis
    using sel full new order
      sixth_coin_rejected [OF sel full new, of "''market_cap_desc''"]
    by blast
qed

section \<open>Removal\<close>

lemma count_list_filter_other:
  "c \<noteq> x \<Longrightarrow> count_list (filter (\<lambda>y. y \<noteq> x) xs) c = count_list xs c"
  by (induction xs) simp_all

text \<open>
  Claim C10. Removing \<open>i\<close>, by \<^verbatim>\<open>removeCoin\<close> or by \<^verbatim>\<open>toggleCoin\<close> when \<open>i\<close> is selected,
  leaves a Selection Set in which \<open>i\<close> does not occur, every other identifier occurs as often
  as before, and the order is the original one (the result is a subsequence of the original).
  \<^verbatim>\<open>removeCoin("bitcoin")\<close> on \<^verbatim>\<open>["bitcoin","ethereum"]\<close> yields \<^verbatim>\<open>["ethereum"]\<close>.
\<close>

theorem removal_deletes_all_keeps_order:
  assumes sel: "selectedCoins s = JArr xs"
  shows "(\<exists>ys. selectedCoins (state_of (removeCoin i s)) = JArr ys
            \<and> JStr i \<notin> set ys
            \<and> (\<forall>c. c \<noteq> JStr i \<longrightarrow> count_list ys c = count_list xs c)
            \<and> subseq ys xs)
         \<and> (JStr i \<in> set xs \<longrightarrow>
              selectedCoins (state_of (toggleCoin i s)) = selectedCoins (state_of (removeCoin i s)))
         \<and> (xs = [JStr ''bitcoin'', JStr ''ethereum''] \<longrightarrow>
              selectedCoins (state_of (removeCoin ''bitcoin'' s)) = JArr [JStr ''ethereum''])"
proof (intro conjI)
  let ?ys = "filter (\<lambda>c. c \<noteq> JStr i) xs"
  have "selectedCoins (state_of (removeCoin i s)) = JArr ?ys"
    using sel by (rule removeCoin_selection)
  moreover have "JStr i \<notin> set ?ys"
    by simp
  moreover have "\<forall>c. c \<noteq> JStr i \<longrightarrow> count_list ?ys c = count_list xs c"
    by (simp add: count_list_filter_other)
  moreover have "subseq ?ys xs"
    by simp
  ultimately show "\<exists>ys. selectedCoins (state_of (removeCoin i s)) = JArr ys
            \<and> JStr i \<notin> set ys
            \<and> (\<forall>c. c \<noteq> JStr i \<longrightarrow> count_list ys c = count_list xs c)
            \<and> subseq ys xs"
    by blast
next
  show "JStr i \<in> set xs \<longrightarrow>
          selectedCoins (state_of (toggleCoin i s)) = selectedCoins (state_of (removeCoin i s))"
    using sel by (simp add: toggleCoin_selection removeCoin_selection)
next
  show "xs = [JStr ''bitcoin'', JStr ''ethereum''] \<longrightarrow>
          selectedCoins (state_of (removeCoin ''bitcoin'' s)) = JArr [JStr ''ethereum'']"
    using sel by (simp add: removeCoin_selection)
qed

theorem removal_witness:
  "selectedCoins two_coins = JArr [JStr ''bitcoin'', JStr ''ethereum'']
   \<and> (\<exists>ys. selectedCoins (state_of (removeCoin ''bitcoin'' two_coins)) = JArr ys
          \<and> JStr ''bitcoin'' \<notin> set ys
          \<and> (\<forall>c. c \<noteq> JStr ''bitcoin''
                \<longrightarrow> count_list ys c = count_list [JStr ''bitcoin'', JStr ''ethereum''] c)
          \<and> subseq ys [JStr ''bitcoin'', JStr ''ethereum''])
   \<and> JStr ''bitcoin'' \<in> set [JStr ''bitcoin'', JStr ''ethereum'']
   \<and> selectedCoins (state_of (toggleCoin ''bitcoin'' two_coins))
       = selectedCoins (state_of (removeCoin ''bitcoin'' two_coins))
   \<and> selectedCoins (state_of (removeCoin ''bitcoin'' two_coins)) = JArr [JStr ''ethereum'']"
  using removal_deletes_all_keeps_order
    [of two_coins "[JStr ''bitcoin'', JStr ''ethereum'']" "''bitcoin''"]
  by (simp add: two_coins_def fresh_def)

section \<open>Loading\<close>

lemma parse_absent: "JSON_parse None = Inr JNull"
  by (simp add: JSON_parse_def JSON_parse_text_def is_ws_def emit_def step_tok_def)

lemma startup_loads:
  "startup st d = Inr s \<Longrightarrow>
   load_selectedCoins st = Inr (selectedCoins s) \<and> load_userPrefs st = Inr (userPrefs s)"
  by (auto simp: startup_def loadData_fetch_def
      split: sum.splits completion.splits failure.splits)

text \<open>
  Claim C5, as stated, fails for malformed content: \<^verbatim>\<open>JSON.parse\<close> throws a
  \<^verbatim>\<open>SyntaxError\<close> on text that is not JSON, nothing catches it, and the script ends there.
  With \<^verbatim>\<open>bitcoin,ethereum\<close> stored under \<^verbatim>\<open>selectedCoins\<close>, loading fails.
\<close>

theorem malformed_storage_counterexample:
  "unparsable_storage ''selectedCoins'' = Some ''bitcoin,ethereum''
   \<and> JSON_parse (Some ''bitcoin,ethereum'') = Inl SyntaxError
   \<and> load_selectedCoins unparsable_storage = Inl SyntaxError
   \<and> startup unparsable_storage True = Inl SyntaxError"
  by (simp add: unparsable_storage_def startup_def load_selectedCoins_def JSON_parse_def
      JSON_parse_text_def is_ws_def is_digit_def)

text \<open>
  Claim C5, amended. At startup, if nothing is stored under \<^verbatim>\<open>selectedCoins\<close> the
  Selection Set is loaded as the empty array, and if nothing is stored under \<^verbatim>\<open>userPrefs\<close>
  the Preferences are loaded as \<^verbatim>\<open>{show24h: false, sortOrder: 'market_cap_desc'}\<close>. With
  both absent the script completes, shows no notice and issues its first request with the
  default sort order.
\<close>

theorem absent_storage_defaults:
  "(st ''selectedCoins'' = None \<longrightarrow> load_selectedCoins st = Inr (JArr []))
   \<and> (st ''userPrefs'' = None \<longrightarrow>
        load_userPrefs st
          = Inr (JObj [(''show24h'', JBool False), (''sortOrder'', JStr ''market_cap_desc'')]))
   \<and> (st ''selectedCoins'' = None \<and> st ''userPrefs'' = None \<longrightarrow>
        startup st d
          = Inr \<lparr>selectedCoins = JArr [],
                 userPrefs = JObj [(''show24h'', JBool False),
                                   (''sortOrder'', JStr ''market_cap_desc'')],
                 localStorage = st, alerts = [],
                 requests = [''https://api.coingecko.com/api/v3/coins/markets''
                             @ ''?vs_currency=usd&order=market_cap_desc&per_page=50&page=1''],
                 cryptoContainer = [], selectedContainer = [], compareBtn_disabled = d\<rparr>)"
  by (simp add: load_selectedCoins_def load_userPrefs_def parse_absent default_prefs_def
      startup_def loadData_fetch_def fetch_url_def API_ENDPOINT_def)

theorem absent_storage_defaults_witness:
  "Map.empty ''selectedCoins'' = (None :: string option)
   \<and> Map.empty ''userPrefs'' = (None :: string option)
   \<and> load_selectedCoins Map.empty = Inr (JArr [])
   \<and> load_userPrefs Map.empty
        = Inr (JObj [(''show24h'', JBool False), (''sortOrder'', JStr ''market_cap_desc'')])
   \<and> startup Map.empty True = Inr fresh"
  using absent_storage_defaults [of Map.empty True]
  by (simp add: fresh_def default_prefs_def fetch_url_def API_ENDPOINT_def)

section \<open>The request\<close>

lemma map_of_put_prop_same: "map_of (put_prop k v kvs) k = Some v"
proof (cases "k \<in> fst ` set kvs")
  case True
  have "map_of (map (\<lambda>(k', v'). if k' = k then (k', v) else (k', v')) kvs) k = Some v"
    using True by (induction kvs) auto
  then show ?thesis using True by (simp add: put_prop_def)
next
  case False
  then have none: "map_of kvs k = None"
    by (simp add: map_of_eq_None_iff)
  let ?p = "\<lambda>(k', _). is_array_index k' \<and> nat_of_digits k' < nat_of_digits k"
  have "k \<notin> fst ` set (takeWhile ?p kvs)"
    using False set_takeWhileD by fastforce
  then have "map_of (takeWhile ?p kvs) k = None"
    by (simp add: map_of_eq_None_iff)
  then show ?thesis
    using False none by (simp add: put_prop_def map_add_def)
qed

text \<open>
  Claim C7. When the Preferences hold the string \<open>token\<close> as their sort order, a fetch
  cycle passes exactly one URL to \<^verbatim>\<open>fetch\<close>: the market endpoint with the query
  \<^verbatim>\<open>vs_currency=usd&order=token&per_page=50&page=1\<close>; rendering the response issues no
  further request. After the sort order has been changed to \<^verbatim>\<open>volume_desc\<close>, the request
  the handler issues and the request of the next cycle both carry \<^verbatim>\<open>order=volume_desc\<close>,
  and the Preferences written to storage are the changed ones.
\<close>

theorem fetch_query:
  assumes prefs: "userPrefs s = JObj kvs"
    and order: "map_of kvs ''sortOrder'' = Some (JStr token)"
  shows "loadData_fetch s
           = Normal (s\<lparr>requests := requests s
               @ [''https://api.coingecko.com/api/v3/coins/markets?vs_currency=usd&order=''
                  @ token @ ''&per_page=50&page=1'']\<rparr>)
         \<and> requests (state_of (loadData P coins s))
             = requests s
               @ [''https://api.coingecko.com/api/v3/coins/markets?vs_currency=usd&order=''
                  @ token @ ''&per_page=50&page=1'']
         \<and> requests (state_of (sort_changed ''volume_desc'' s))
             = requests s
               @ [''https://api.coingecko.com/api/v3/coins/markets''
                  @ ''?vs_currency=usd&order=volume_desc&per_page=50&page=1'']
         \<and> requests (state_of (loadData_fetch (state_of (sort_changed ''volume_desc'' s))))
             = requests s
               @ [''https://api.coingecko.com/api/v3/coins/markets''
                  @ ''?vs_currency=usd&order=volume_desc&per_page=50&page=1'',
                  ''https://api.coingecko.com/api/v3/coins/markets''
                  @ ''?vs_currency=usd&order=volume_desc&per_page=50&page=1'']
         \<and> Get (userPrefs (state_of (sort_changed ''volume_desc'' s))) ''sortOrder''
             = Inr (Some (JStr ''volume_desc''))
         \<and> localStorage (state_of (sort_changed ''volume_desc'' s)) ''userPrefs''
             = Some (JSON_stringify (userPrefs (state_of (sort_changed ''volume_desc'' s))))"
proof -
  let ?p = "JObj (put_prop ''sortOrder'' (JStr ''volume_desc'') kvs)"
  let ?u = "updateLocal (s\<lparr>userPrefs := ?p\<rparr>)"
  have first: "loadData_fetch s = Normal (s\<lparr>requests := requests s @ [fetch_url token]\<rparr>)"
    using prefs order by (rule loadData_fetch_string)
  have cycle: "requests (state_of (loadData P coins s)) = requests s @ [fetch_url token]"
    by (simp add: loadData_def first loadData_render_requests)
  have changed: "sort_changed ''volume_desc'' s = loadData_fetch ?u"
    using prefs by (simp add: sort_changed_def)
  let ?s1 = "?u\<lparr>requests := requests s @ [fetch_url ''volume_desc'']\<rparr>"
  let ?s2 = "?u\<lparr>requests := requests s @ [fetch_url ''volume_desc'', fetch_url ''volume_desc'']\<rparr>"
  have fetch: "loadData_fetch ?u = Normal ?s1"
    using loadData_fetch_string
      [of ?u "put_prop ''sortOrder'' (JStr ''volume_desc'') kvs" "''volume_desc''"]
    by (simp add: map_of_put_prop_same)
  have again: "loadData_fetch ?s1 = Normal ?s2"
    using loadData_fetch_string
      [of ?s1 "put_prop ''sortOrder'' (JStr ''volume_desc'') kvs" "''volume_desc''"]
    by (simp add: map_of_put_prop_same)
  have stored: "localStorage ?u ''userPrefs'' = Some (JSON_stringify ?p)"
    by (simp add: updateLocal_def del: JSON_stringify.simps)
  have after: "state_of (sort_changed ''volume_desc'' s) = ?s1"
    by (simp add: changed fetch)
  show ?thesis
    unfolding after again first cycle
    using stored
    by (simp add: fetch_url_def API_ENDPOINT_def map_of_put_prop_same
        del: JSON_stringify.simps)
qed

theorem fetch_query_witness:
  "userPrefs fresh = JObj [(''show24h'', JBool False), (''sortOrder'', JStr ''market_cap_desc'')]
   \<and> map_of [(''show24h'', JBool False), (''sortOrder'', JStr ''market_cap_desc'')] ''sortOrder''
       = Some (JStr ''market_cap_desc'')
   \<and> loadData_fetch fresh
       = Normal (fresh\<lparr>requests := requests fresh
           @ [''https://api.coingecko.com/api/v3/coins/markets?vs_currency=usd&order=''
              @ ''market_cap_desc'' @ ''&per_page=50&page=1'']\<rparr>)
   \<and> requests (state_of (loadData demo_platform [bitcoin_without_change] fresh))
       = requests fresh
           @ [''https://api.coingecko.com/api/v3/coins/markets?vs_currency=usd&order=''
              @ ''market_cap_desc'' @ ''&per_page=50&page=1'']
   \<and> Get (userPrefs (state_of (sort_changed ''volume_desc'' fresh))) ''sortOrder''
       = Inr (Some (JStr ''volume_desc''))"
  using fetch_query [of fresh "[(''show24h'', JBool False), (''sortOrder'', JStr ''market_cap_desc'')]"
      "''market_cap_desc''" demo_platform "[bitcoin_without_change]"]
  by (simp add: fresh_def default_prefs_def)

section \<open>Both fields of the Preferences\<close>

lemma keys_put_prop: "fst ` set (put_prop k v kvs) = insert k (fst ` set kvs)"
proof (cases "k \<in> fst ` set kvs")
  case True
  have "fst ` set (map (\<lambda>(k', v'). if k' = k then (k', v) else (k', v')) kvs) = fst ` set kvs"
    by (induction kvs) auto
  then show ?thesis using True by (auto simp: put_prop_def)
next
  case False
  let ?p = "\<lambda>(k', _). is_array_index k' \<and> nat_of_digits k' < nat_of_digits k"
  have "set (takeWhile ?p kvs) \<union> set (dropWhile ?p kvs) = set kvs"
    by (metis set_append takeWhile_dropWhile_id)
  then have "fst ` set (takeWhile ?p kvs @ (k, v) # dropWhile ?p kvs) = insert k (fst ` set kvs)"
    by (simp add: image_Un [symmetric] Un_commute)
  then show ?thesis using False by (simp add: put_prop_def)
qed

lemma has_both_fields_keys:
  "has_both_fields (JObj kvs) = (''show24h'' \<in> fst ` set kvs \<and> ''sortOrder'' \<in> fst ` set kvs)"
  by (simp add: map_of_eq_None_iff)

lemma has_both_fields_put:
  "has_both_fields p \<Longrightarrow> Put p k v = Inr p' \<Longrightarrow> has_both_fields p'"
proof (cases p)
  case (JObj kvs)
  assume "has_both_fields p" and "Put p k v = Inr p'"
  then have "''show24h'' \<in> fst ` set kvs" "''sortOrder'' \<in> fst ` set kvs"
    and p': "p' = JObj (put_prop k v kvs)"
    using JObj by (auto simp: has_both_fields_keys simp del: has_both_fields.simps)
  then show ?thesis
    unfolding p' has_both_fields_keys keys_put_prop by simp
qed simp_all

lemma dispatch_has_both_fields:
  assumes "has_both_fields (userPrefs s)"
  shows "has_both_fields (userPrefs (state_of (dispatch P e s)))"
proof (cases e)
  case (Show24hChange b)
  then show ?thesis
    using assms
    by (auto simp: show24h_changed_def split: sum.splits dest: has_both_fields_put)
next
  case (SortChange v)
  then show ?thesis
    using assms
    by (auto simp: sort_changed_def split: sum.splits dest: has_both_fields_put)
qed (use assms in simp_all)

text \<open>
  Claim C8, as stated, fails: the default is substituted for the whole record only. A
  stored record that lacks a field is loaded as it is, and the missing field reads
  \<^verbatim>\<open>undefined\<close>. With \<^verbatim>\<open>{"show24h":true}\<close> stored under \<^verbatim>\<open>userPrefs\<close>, the loaded
  Preferences have no \<^verbatim>\<open>sortOrder\<close>, and the first request asks for \<^verbatim>\<open>order=undefined\<close>.
\<close>

theorem partial_prefs_counterexample:
  "startup partial_prefs_storage True
     = Inr \<lparr>selectedCoins = JArr [], userPrefs = JObj [(''show24h'', JBool True)],
            localStorage = partial_prefs_storage, alerts = [],
            requests = [''https://api.coingecko.com/api/v3/coins/markets''
                        @ ''?vs_currency=usd&order=undefined&per_page=50&page=1''],
            cryptoContainer = [], selectedContainer = [], compareBtn_disabled = True\<rparr>
   \<and> Get (JObj [(''show24h'', JBool True)]) ''sortOrder'' = Inr None
   \<and> \<not> has_both_fields (JObj [(''show24h'', JBool True)])"
  by (simp add: partial_prefs_storage_def startup_def load_selectedCoins_def load_userPrefs_def
      parse_absent JSON_parse_def JSON_parse_text_def is_ws_def emit_def step_tok_def
      put_prop_def not_index_show24h loadData_fetch_def fetch_url_def API_ENDPOINT_def
      unescape_def)

text \<open>
  Claim C8, amended. If the script has started, and either nothing was stored under
  \<^verbatim>\<open>userPrefs\<close> or the loaded record has both fields, then the Preferences have both
  fields populated after every sequence of events.
\<close>

theorem both_fields_kept:
  assumes start: "startup st d = Inr s"
    and stored: "st ''userPrefs'' = None \<or> has_both_fields (userPrefs s)"
  shows "has_both_fields (userPrefs (state_of (run P evs s)))"
proof -
  have "has_both_fields (userPrefs s)"
  proof (cases "st ''userPrefs''")
    case None
    then have "load_userPrefs st = Inr default_prefs"
      by (simp add: load_userPrefs_def parse_absent)
    then have "userPrefs s = default_prefs"
      using startup_loads [OF start] by simp
    then show ?thesis by (simp add: default_prefs_def)
  next
    case (Some a)
    then show ?thesis using stored by simp
  qed
  then show ?thesis
    by (rule run_invariant [where I = "\<lambda>s. has_both_fields (userPrefs s)", rotated])
       (rule dispatch_has_both_fields)
qed

theorem both_fields_kept_witness:
  "startup Map.empty True = Inr fresh
   \<and> Map.empty ''userPrefs'' = (None :: string option)
   \<and> has_both_fields (userPrefs (state_of (run demo_platform
        [Show24hChange True, SortChange ''volume_desc'', CardClick ''bitcoin''] fresh)))"
proof -
  have start: "startup Map.empty True = Inr fresh"
    by (simp add: startup_def load_selectedCoins_def load_userPrefs_def parse_absent
        loadData_fetch_def default_prefs_def fresh_def)
  have stored: "Map.empty ''userPrefs'' = (None :: string option)
      \<or> has_both_fields (userPrefs fresh)"
    by simp
  show ?thesis
    using start both_fields_kept [OF start stored, of demo_platform
        "[Show24hChange True, SortChange ''volume_desc'', CardClick ''bitcoin'']"]
    by simp
qed

section \<open>Cards without the 24h change\<close>

lemma change_line_hidden:
  "Get prefs ''show24h'' = Inr v \<Longrightarrow> \<not> ToBoolean v \<Longrightarrow> change_line P prefs c = Inr []"
  by (simp add: change_line_def)

lemma crypto_card_html_hidden:
  assumes "Get prefs ''show24h'' = Inr v" and "\<not> ToBoolean v"
  shows "crypto_card_html (P\<lparr>toFixed2 := g\<rparr>) prefs (c\<lparr>price_change_percentage_24h := x\<rparr>)
           = crypto_card_html P prefs c"
  using assms by (simp add: crypto_card_html_def change_line_hidden)

lemma selected_card_html_hidden:
  assumes "Get prefs ''show24h'' = Inr v" and "\<not> ToBoolean v"
  shows "selected_card_html (P\<lparr>toFixed2 := g\<rparr>) prefs (c\<lparr>price_change_percentage_24h := x\<rparr>)
           = selected_card_html P prefs c"
  using assms by (simp add: selected_card_html_def change_line_hidden)

lemma crypto_cards_hidden:
  assumes "Get (userPrefs s) ''show24h'' = Inr v" and "\<not> ToBoolean v"
  shows "crypto_cards (P\<lparr>toFixed2 := g\<rparr>) i
            (map (\<lambda>c. c\<lparr>price_change_percentage_24h := f c\<rparr>) coins) s
           = crypto_cards P i coins s"
  using assms
proof (induction coins arbitrary: i s)
  case Nil
  show ?case by simp
next
  case (Cons c coins)
  have html: "crypto_card_html (P\<lparr>toFixed2 := g\<rparr>) (userPrefs s)
        (c\<lparr>price_change_percentage_24h := f c\<rparr>) = crypto_card_html P (userPrefs s) c"
    using Cons.prems by (rule crypto_card_html_hidden)
  show ?case
  proof (cases "crypto_card_html P (userPrefs s) c")
    case (Inl e)
    then show ?thesis by (simp add: html)
  next
    case (Inr h)
    let ?s1 = "s\<lparr>cryptoContainer := cryptoContainer s
                 @ [\<lparr>className = row_class i, innerHTML = h, onclick = Some (coin_id c)\<rparr>]\<rparr>"
    have "Get (userPrefs ?s1) ''show24h'' = Inr v"
      using Cons.prems(1) by simp
    then have "crypto_cards (P\<lparr>toFixed2 := g\<rparr>) (Suc i)
        (map (\<lambda>c. c\<lparr>price_change_percentage_24h := f c\<rparr>) coins) ?s1
        = crypto_cards P (Suc i) coins ?s1"
      using Cons.prems(2) by (rule Cons.IH)
    then show ?thesis by (simp add: html Inr)
  qed
qed

lemma selected_cards_hidden:
  assumes "Get (userPrefs s) ''show24h'' = Inr v" and "\<not> ToBoolean v"
  shows "selected_cards (P\<lparr>toFixed2 := g\<rparr>)
            (map (\<lambda>c. c\<lparr>price_change_percentage_24h := f c\<rparr>) coins) s
           = selected_cards P coins s"
  using assms
proof (induction coins arbitrary: s)
  case Nil
  show ?case by simp
next
  case (Cons c coins)
  have html: "selected_card_html (P\<lparr>toFixed2 := g\<rparr>) (userPrefs s)
        (c\<lparr>price_change_percentage_24h := f c\<rparr>) = selected_card_html P (userPrefs s) c"
    using Cons.prems by (rule selected_card_html_hidden)
  show ?case
  proof (cases "selected_card_html P (userPrefs s) c")
    case (Inl e)
    then show ?thesis by (simp add: html)
  next
    case (Inr h)
    let ?s1 = "s\<lparr>selectedContainer := selectedContainer s
                 @ [\<lparr>className = ''selected-card'', innerHTML = h, onclick = None\<rparr>]\<rparr>"
    have "Get (userPrefs ?s1) ''show24h'' = Inr v"
      using Cons.prems(1) by simp
    then have "selected_cards (P\<lparr>toFixed2 := g\<rparr>)
        (map (\<lambda>c. c\<lparr>price_change_percentage_24h := f c\<rparr>) coins) ?s1
        = selected_cards P coins ?s1"
      using Cons.prems(2) by (rule Cons.IH)
    then show ?thesis by (simp add: html Inr)
  qed
qed

lemma selectedData_map:
  "selectedData sel (map (\<lambda>c. c\<lparr>price_change_percentage_24h := f c\<rparr>) coins)
     = (case selectedData sel coins of
          Inl e \<Rightarrow> Inl e
        | Inr chosen \<Rightarrow> Inr (map (\<lambda>c. c\<lparr>price_change_percentage_24h := f c\<rparr>) chosen))"
  by (induction coins) (simp_all split: sum.splits)

lemma crypto_cards_hidden_completes:
  assumes "Get (userPrefs s) ''show24h'' = Inr v" and "\<not> ToBoolean v"
  shows "\<exists>s'. crypto_cards P i coins s = Normal s'"
  using assms
proof (induction coins arbitrary: i s)
  case Nil
  show ?case by simp
next
  case (Cons c coins)
  obtain h where h: "crypto_card_html P (userPrefs s) c = Inr h"
    using Cons.prems by (simp add: crypto_card_html_def change_line_hidden)
  let ?s1 = "s\<lparr>cryptoContainer := cryptoContainer s
               @ [\<lparr>className = row_class i, innerHTML = h, onclick = Some (coin_id c)\<rparr>]\<rparr>"
  have "Get (userPrefs ?s1) ''show24h'' = Inr v"
    using Cons.prems(1) by simp
  then have "\<exists>s'. crypto_cards P (Suc i) coins ?s1 = Normal s'"
    using Cons.prems(2) by (rule Cons.IH)
  then show ?case by (simp add: h)
qed

text \<open>
  Claim C9. When reading \<^verbatim>\<open>userPrefs.show24h\<close> gives a false value, the conditional line
  of every card is the empty string, and the cards built by \<^verbatim>\<open>renderCryptoList\<close> and by
  \<^verbatim>\<open>renderSelected\<close> do not depend on the coins' 24h-change field, nor on \<^verbatim>\<open>toFixed\<close>:
  replacing the field of every coin by anything, and the formatting function by any other,
  gives the same completion and the same page. \<^verbatim>\<open>renderCryptoList\<close> then completes
  whatever the field holds.
\<close>

theorem hidden_change_is_not_read:
  assumes off: "Get (userPrefs s) ''show24h'' = Inr v" "\<not> ToBoolean v"
  shows "change_line P (userPrefs s) c = Inr []
         \<and> renderCryptoList (P\<lparr>toFixed2 := g\<rparr>)
            (map (\<lambda>c. c\<lparr>price_change_percentage_24h := f c\<rparr>) coins) s
           = renderCryptoList P coins s
         \<and> renderSelected (P\<lparr>toFixed2 := g\<rparr>)
            (map (\<lambda>c. c\<lparr>price_change_percentage_24h := f c\<rparr>) coins) s
           = renderSelected P coins s
         \<and> (\<exists>s'. renderCryptoList P coins s = Normal s')"
proof (intro conjI)
  show "change_line P (userPrefs s) c = Inr []"
    using off by (rule change_line_hidden)
next
  have "Get (userPrefs (s\<lparr>cryptoContainer := []\<rparr>)) ''show24h'' = Inr v"
    using off(1) by simp
  then show "renderCryptoList (P\<lparr>toFixed2 := g\<rparr>)
            (map (\<lambda>c. c\<lparr>price_change_percentage_24h := f c\<rparr>) coins) s
           = renderCryptoList P coins s"
    unfolding renderCryptoList_def using off(2) by (rule crypto_cards_hidden)
next
  let ?s1 = "s\<lparr>selectedContainer := []\<rparr>"
  have prefs: "Get (userPrefs ?s1) ''show24h'' = Inr v"
    using off(1) by simp
  have cards: "selected_cards (P\<lparr>toFixed2 := g\<rparr>)
        (map (\<lambda>c. c\<lparr>price_change_percentage_24h := f c\<rparr>) chosen) ?s1
      = selected_cards P chosen ?s1" for chosen
    using prefs off(2) by (rule selected_cards_hidden)
  show "renderSelected (P\<lparr>toFixed2 := g\<rparr>)
            (map (\<lambda>c. c\<lparr>price_change_percentage_24h := f c\<rparr>) coins) s
           = renderSelected P coins s"
    by (simp add: renderSelected_def selectedData_map cards split: sum.splits)
next
  have "Get (userPrefs (s\<lparr>cryptoContainer := []\<rparr>)) ''show24h'' = Inr v"
    using off(1) by simp
  then show "\<exists>s'. renderCryptoList P coins s = Normal s'"
    unfolding renderCryptoList_def using off(2) by (rule crypto_cards_hidden_completes)
qed

theorem hidden_change_witness:
  "Get (userPrefs fresh) ''show24h'' = Inr (Some (JBool False))
   \<and> \<not> ToBoolean (Some (JBool False))
   \<and> change_line demo_platform (userPrefs fresh) bitcoin_without_change = Inr []
   \<and> renderCryptoList (demo_platform\<lparr>toFixed2 := (\<lambda>x. ''?'')\<rparr>)
        (map (\<lambda>c. c\<lparr>price_change_percentage_24h := Some ''4.2''\<rparr>) [bitcoin_without_change])
        fresh
       = renderCryptoList demo_platform [bitcoin_without_change] fresh
   \<and> renderSelected (demo_platform\<lparr>toFixed2 := (\<lambda>x. ''?'')\<rparr>)
        (map (\<lambda>c. c\<lparr>price_change_percentage_24h := Some ''4.2''\<rparr>) [bitcoin_without_change])
        fresh
       = renderSelected demo_platform [bitcoin_without_change] fresh
   \<and> (\<exists>s'. renderCryptoList demo_platform [bitcoin_without_change] fresh = Normal s')"
proof -
  have off: "Get (userPrefs fresh) ''show24h'' = Inr (Some (JBool False))"
    "\<not> ToBoolean (Some (JBool False))"
    by (simp_all add: fresh_def default_prefs_def)
  show ?thesis
    using off hidden_change_is_not_read [OF off, where P = demo_platform and g = "\<lambda>x. ''?''"
        and f = "\<lambda>c. Some ''4.2''" and coins = "[bitcoin_without_change]"
        and c = bitcoin_without_change]
    by simp
qed

section \<open>The compare button\<close>

lemma renderSelected_sets_compare:
  assumes sel: "selectedCoins s = JArr xs"
    and completes: "renderSelected P coins s = Normal s'"
  shows "compareBtn_disabled s' = (length xs \<noteq> 5)"
proof -
  let ?s1 = "s\<lparr>selectedContainer := []\<rparr>"
  obtain chosen where chosen: "selectedData (selectedCoins ?s1) coins = Inr chosen"
    using completes by (auto simp: renderSelected_def Let_def split: sum.splits)
  obtain s2 where s2: "selected_cards P chosen ?s1 = Normal s2"
    using completes chosen
    by (auto simp: renderSelected_def Let_def split: sum.splits completion.splits)
  have "selectedCoins s2 = JArr xs"
    using selected_cards_result [OF s2] sel by simp
  then show ?thesis
    using completes chosen s2 by (auto simp: renderSelected_def Let_def)
qed

lemma crypto_card_html_line:
  "crypto_card_html P prefs c = Inr h \<Longrightarrow> \<exists>line. change_line P prefs c = Inr line"
  by (cases "change_line P prefs c") (simp_all add: crypto_card_html_def)

lemma crypto_cards_lines:
  "crypto_cards P i coins s = Normal s1 \<Longrightarrow> c \<in> set coins \<Longrightarrow>
   \<exists>line. change_line P (userPrefs s) c = Inr line"
proof (induction coins arbitrary: i s)
  case Nil
  then show ?case by simp
next
  case (Cons d coins)
  obtain h where h: "crypto_card_html P (userPrefs s) d = Inr h"
    using Cons.prems(1) by (cases "crypto_card_html P (userPrefs s) d") simp_all
  let ?s' = "s\<lparr>cryptoContainer := cryptoContainer s
               @ [\<lparr>className = row_class i, innerHTML = h, onclick = Some (coin_id d)\<rparr>]\<rparr>"
  have rest: "crypto_cards P (Suc i) coins ?s' = Normal s1"
    using Cons.prems(1) h by simp
  show ?case
  proof (cases "c = d")
    case True
    then show ?thesis using h by (auto dest: crypto_card_html_line)
  next
    case False
    then have "c \<in> set coins"
      using Cons.prems(2) by simp
    then have "\<exists>line. change_line P (userPrefs ?s') c = Inr line"
      using rest by (rule Cons.IH [rotated])
    then show ?thesis by simp
  qed
qed

lemma selectedData_subset:
  "selectedData sel coins = Inr chosen \<Longrightarrow> set chosen \<subseteq> set coins"
  by (induction coins arbitrary: chosen) (auto split: sum.splits if_splits)

lemma selected_cards_complete:
  "(\<And>c. c \<in> set chosen \<Longrightarrow> \<exists>line. change_line P (userPrefs s) c = Inr line) \<Longrightarrow>
   \<exists>s2. selected_cards P chosen s = Normal s2"
proof (induction chosen arbitrary: s)
  case Nil
  show ?case by simp
next
  case (Cons d chosen)
  obtain line where "change_line P (userPrefs s) d = Inr line"
    using Cons.prems [of d] by auto
  then obtain h where h: "selected_card_html P (userPrefs s) d = Inr h"
    by (simp add: selected_card_html_def)
  let ?s' = "s\<lparr>selectedContainer := selectedContainer s
               @ [\<lparr>className = ''selected-card'', innerHTML = h, onclick = None\<rparr>]\<rparr>"
  have "\<exists>s2. selected_cards P chosen ?s' = Normal s2"
  proof (rule Cons.IH)
    fix c
    assume "c \<in> set chosen"
    then show "\<exists>line. change_line P (userPrefs ?s') c = Inr line"
      using Cons.prems [of c] by simp
  qed
  then show ?case by (simp add: h)
qed

text \<open>
  Claim C6. \<^verbatim>\<open>renderSelected(coins)\<close> is called in one place, by \<^verbatim>\<open>loadData\<close>, right after
  \<^verbatim>\<open>renderCryptoList(coins)\<close> has completed on the same array (lines 40 and 41). For every
  coin array and every Selection Set (an array), \<^verbatim>\<open>renderSelected\<close> then completes and
  sets the compare button's \<^verbatim>\<open>disabled\<close> flag to whether the Selection Set's length differs
  from 5: the button is enabled if and only if exactly 5 coins are selected, and a render
  never leaves it enabled at another length. A coin that would make a card of the selected
  list throw (a \<^verbatim>\<open>null\<close> 24h change while the change is shown) has made
  \<^verbatim>\<open>renderCryptoList\<close> throw before, on the same expression.
\<close>

theorem compare_enabled_iff_five:
  assumes sel: "selectedCoins s = JArr xs"
    and listed: "renderCryptoList P coins s = Normal s1"
  shows "\<exists>s2. renderSelected P coins s1 = Normal s2
           \<and> loadData_render P coins s = Normal s2
           \<and> compareBtn_disabled s2 = (length xs \<noteq> 5)
           \<and> (\<not> compareBtn_disabled s2) = (length xs = 5)"
proof -
  have same: "selectedCoins s1 = JArr xs" "userPrefs s1 = userPrefs s"
    using renderCryptoList_fields [of P coins s] listed sel by simp_all
  let ?t = "s1\<lparr>selectedContainer := []\<rparr>"
  obtain chosen where chosen: "selectedData (JArr xs) coins = Inr chosen"
    using selectedData_array by blast
  have lines: "\<exists>line. change_line P (userPrefs ?t) c = Inr line" if "c \<in> set chosen" for c
  proof -
    have "c \<in> set coins"
      using that selectedData_subset [OF chosen] by auto
    moreover have "crypto_cards P 0 coins (s\<lparr>cryptoContainer := []\<rparr>) = Normal s1"
      using listed by (simp add: renderCryptoList_def)
    ultimately have "\<exists>line. change_line P (userPrefs (s\<lparr>cryptoContainer := []\<rparr>)) c = Inr line"
      by (rule crypto_cards_lines [rotated])
    then show ?thesis using same by simp
  qed
  obtain s2 where s2: "selected_cards P chosen ?t = Normal s2"
    using selected_cards_complete [of chosen P ?t] lines by blast
  have kept: "selectedCoins s2 = JArr xs"
    using selected_cards_result [OF s2] same by simp
  have "renderSelected P coins s1
      = Normal (s2\<lparr>compareBtn_disabled := (length xs \<noteq> 5)\<rparr>)"
    using same chosen s2 kept by (simp add: renderSelected_def)
  then show ?thesis
    by (simp add: loadData_render_def listed)
qed

theorem compare_enabled_iff_five_witness:
  "selectedCoins five_selected_with_change
     = JArr [JStr ''bitcoin'', JStr ''ethereum'', JStr ''tether'', JStr ''solana'',
             JStr ''cardano'']
   \<and> Get (userPrefs five_selected_with_change) ''show24h'' = Inr (Some (JBool True))
   \<and> renderCryptoList demo_platform [ethereum_with_change] five_selected_with_change
       = Normal (state_of
           (renderCryptoList demo_platform [ethereum_with_change] five_selected_with_change))
   \<and> (\<exists>s2. renderSelected demo_platform [ethereum_with_change]
               (state_of (renderCryptoList demo_platform [ethereum_with_change]
                  five_selected_with_change)) = Normal s2
          \<and> loadData_render demo_platform [ethereum_with_change] five_selected_with_change
              = Normal s2
          \<and> compareBtn_disabled s2 = False)"
proof -
  have sel: "selectedCoins five_selected_with_change
      = JArr [JStr ''bitcoin'', JStr ''ethereum'', JStr ''tether'', JStr ''solana'',
              JStr ''cardano'']"
    using five_selected_fields(1) by (simp add: five_selected_with_change_def)
  have prefs: "userPrefs five_selected_with_change
      = JObj [(''show24h'', JBool True), (''sortOrder'', JStr ''market_cap_desc'')]"
    by (simp add: five_selected_with_change_def show24h_changed_def five_selected_fields
        default_prefs_def put_prop_def loadData_fetch_def)
  have listed: "renderCryptoList demo_platform [ethereum_with_change] five_selected_with_change
      = Normal (state_of
          (renderCryptoList demo_platform [ethereum_with_change] five_selected_with_change))"
    by (simp add: renderCryptoList_def crypto_card_html_def change_line_def prefs
        ethereum_with_change_def)
  show ?thesis
    using sel prefs listed compare_enabled_iff_five [OF sel listed]
    by simp
qed

end
